theory Spec2Isabelle
  imports Main
begin

section \<open>Python strings\<close>

text \<open>
  A Python \<open>str\<close> is a sequence of Unicode code points. A code point is a natural
  number, so that the line boundaries and the white space beyond Latin-1 which
  \<open>str.splitlines\<close> and \<open>str.strip\<close> recognise are part of the model.
  \<open>str\<close> turns an ASCII literal into such a sequence.
\<close>

type_synonym pystr = "nat list"

definition str :: "string \<Rightarrow> pystr" where
  "str s = map of_char s"

text \<open>\<open>sep.join(xs)\<close>\<close>

fun join :: "pystr \<Rightarrow> pystr list \<Rightarrow> pystr" where
  "join sep [] = []"
| "join sep [x] = x"
| "join sep (x # y # ys) = x @ sep @ join sep (y # ys)"

text \<open>\<open>s.startswith(p)\<close>, and \<open>sub in s\<close> for strings.\<close>

definition startswith :: "pystr \<Rightarrow> pystr \<Rightarrow> bool" where
  "startswith p s = (take (length p) s = p)"

fun contains :: "pystr \<Rightarrow> pystr \<Rightarrow> bool" where
  "contains sub [] = (sub = [])"
| "contains sub (c # cs) = (startswith sub (c # cs) \<or> contains sub cs)"

text \<open>
  The line boundaries of \<open>str.splitlines\<close>: LF, VT, FF, CR (and CR LF as one
  boundary), FS, GS, RS, NEL, LINE SEPARATOR and PARAGRAPH SEPARATOR.
\<close>

definition is_linebreak :: "nat \<Rightarrow> bool" where
  "is_linebreak c = (c \<in> {10, 11, 12, 13, 28, 29, 30, 133, 8232, 8233})"

text \<open>
  \<open>splitlines_acc acc s\<close> splits \<open>s\<close> with the characters of the current line
  collected in \<open>acc\<close>, newest first. A boundary closes the line, also an empty one; the
  text after the last boundary is a line only when it is not empty.
\<close>

fun splitlines_acc :: "pystr \<Rightarrow> pystr \<Rightarrow> pystr list" where
  "splitlines_acc acc [] = (if acc = [] then [] else [rev acc])"
| "splitlines_acc acc [c] =
     (if is_linebreak c then [rev acc] else splitlines_acc (c # acc) [])"
| "splitlines_acc acc (c # d # cs) =
     (if c = 13 \<and> d = 10 then rev acc # splitlines_acc [] cs
      else if is_linebreak c then rev acc # splitlines_acc [] (d # cs)
      else splitlines_acc (c # acc) (d # cs))"

definition splitlines :: "pystr \<Rightarrow> pystr list" where
  "splitlines s = splitlines_acc [] s"

text \<open>The white space that \<open>str.strip()\<close> removes (\<open>str.isspace\<close>).\<close>

definition is_space :: "nat \<Rightarrow> bool" where
  "is_space c = (c \<in> {9, 10, 11, 12, 13, 28, 29, 30, 31, 32, 133, 160, 5760,
      8192, 8193, 8194, 8195, 8196, 8197, 8198, 8199, 8200, 8201, 8202,
      8232, 8233, 8239, 8287, 12288})"

definition strip :: "pystr \<Rightarrow> pystr" where
  "strip s = rev (dropWhile is_space (rev (dropWhile is_space s)))"

text \<open>\<open>str(n)\<close> for an integer that is not negative: its decimal digits.\<close>

fun str_of_nat :: "nat \<Rightarrow> pystr" where
  "str_of_nat n = (if n < 10 then [48 + n] else str_of_nat (n div 10) @ [48 + n mod 10])"

declare str_of_nat.simps [simp del]

section \<open>Exceptions and JSON fields\<close>

text \<open>
  The exceptions that reach the model: the one that \<open>GitHubCommenter._request\<close> logs and
  raises again when a request fails, the two that the conversions of \<open>post_review\<close>
  raise, and the one of a method call on \<open>None\<close>.
\<close>

datatype exn = RequestError | ValueError | TypeError | AttributeError

text \<open>
  A key of a JSON object is missing, holds null, or holds a value.
\<close>

datatype 'a field = Missing | Null | Value 'a

section \<open>The diff annotator (pr\_review\_service.py)\<close>

text \<open>
  The hunk header is searched with \<open>re.search(r"\+(\d+)", line)\<close>: the first plus sign
  that a decimal digit follows, and the longest run of digits after it. In a Python 3
  string pattern \<open>\d\<close> is any Unicode decimal digit, and \<open>int\<close> reads them all;
  the table of those digits belongs to the language, so it is a parameter here:
  \<open>dv c\<close> is the value of the code point \<open>c\<close> when it is a decimal digit.
  \<open>ascii_digit\<close> is the part of the table below 128.
\<close>

type_synonym digits = "nat \<Rightarrow> nat option"

definition ascii_digit :: digits where
  "ascii_digit c = (if 48 \<le> c \<and> c \<le> 57 then Some (c - 48) else None)"

definition is_digit :: "digits \<Rightarrow> nat \<Rightarrow> bool" where
  "is_digit dv c = (dv c \<noteq> None)"

fun search_plus_digits :: "digits \<Rightarrow> pystr \<Rightarrow> pystr option" where
  "search_plus_digits dv [] = None"
| "search_plus_digits dv [c] = None"
| "search_plus_digits dv (c # d # cs) =
     (if c = 43 \<and> is_digit dv d then Some (takeWhile (is_digit dv) (d # cs))
      else search_plus_digits dv (d # cs))"

text \<open>
  \<open>int(s)\<close> on a string of decimal digits. CPython refuses a string of more digits
  than its limit for such conversions (4300 unless configured otherwise) with
  \<open>ValueError\<close>; the limit is left out here, so the numbers of a hunk whose header
  has that many digits are not those of the code, which raises.
\<close>

definition int_of_digits :: "digits \<Rightarrow> pystr \<Rightarrow> nat" where
  "int_of_digits dv s = foldl (\<lambda>a c. 10 * a + the (dv c)) 0 s"

definition header_start :: "digits \<Rightarrow> pystr \<Rightarrow> nat" where
  "header_start dv line =
     (case search_plus_digits dv line of Some ds \<Rightarrow> int_of_digits dv ds | None \<Rightarrow> 0)"

text \<open>
  The loop of \<open>_extract_numbered_hunks\<close> over the lines of the patch, with the
  counter \<open>new_line\<close>; the result is the list \<open>numbered_lines\<close>.
\<close>

fun number_lines :: "digits \<Rightarrow> nat \<Rightarrow> pystr list \<Rightarrow> pystr list" where
  "number_lines dv new_line [] = []"
| "number_lines dv new_line (line # rest) =
     (if startswith (str ''@@'') line then
        line # number_lines dv (header_start dv line) rest
      else if startswith (str ''+'') line then
        (str_of_nat new_line @ str '':+'' @ drop 1 line) # number_lines dv (new_line + 1) rest
      else if startswith (str ''-'') line then
        (str ''-: '' @ drop 1 line) # number_lines dv new_line rest
      else
        (str_of_nat new_line @ str '': '' @
           (if startswith (str '' '') line then drop 1 line else line))
        # number_lines dv (new_line + 1) rest)"

definition numbered_lines :: "digits \<Rightarrow> pystr \<Rightarrow> pystr list" where
  "numbered_lines dv patch = number_lines dv 0 (splitlines patch)"

definition extract_numbered_hunks :: "digits \<Rightarrow> pystr \<Rightarrow> pystr" where
  "extract_numbered_hunks dv patch =
     (if patch = [] then [] else join [10] (numbered_lines dv patch))"

text \<open>
  Two patches as GitHub returns them: one for a file whose old version does not end with
  a line break (the marker line begins with a backslash), and one whose first added line
  contains a form feed.
\<close>

definition no_newline_marker :: pystr where
  "no_newline_marker = 92 # str '' No newline at end of file''"

definition marker_patch :: pystr where
  "marker_patch = str ''@@ -1 +1 @@'' @ [10] @ str ''-old'' @ [10] @ no_newline_marker @ [10]
                    @ str ''+new''"

definition form_feed_patch :: pystr where
  "form_feed_patch = str ''@@ -0,0 +1,2 @@'' @ [10] @ str ''+a'' @ [12] @ str ''b'' @ [10]
                       @ str ''+c''"


text \<open>A string is blank when \<open>strip\<close> leaves nothing of it.\<close>

definition nonblank :: "pystr \<Rightarrow> bool" where
  "nonblank s = (\<exists>c\<in>set s. \<not> is_space c)"

section \<open>The ledger of reviewed commits (github\_commenter.py)\<close>

text \<open>
  \<open>get_highest_reviewed_commit_id\<close>: the loop over \<open>all_commits\<close> carries
  \<open>highest\<close>, which starts as the empty string.
\<close>

fun highest_loop :: "pystr \<Rightarrow> pystr list \<Rightarrow> pystr list \<Rightarrow> pystr" where
  "highest_loop highest [] reviewed = highest"
| "highest_loop highest (sha # rest) reviewed =
     highest_loop (if sha \<in> set reviewed then sha else highest) rest reviewed"

definition get_highest_reviewed_commit_id :: "pystr list \<Rightarrow> pystr list \<Rightarrow> pystr" where
  "get_highest_reviewed_commit_id all_commits reviewed = highest_loop [] all_commits reviewed"

definition COMMIT_ID_START_TAG :: pystr where
  "COMMIT_ID_START_TAG = str ''<!-- commit_ids_reviewed_start -->''"

definition COMMIT_ID_END_TAG :: pystr where
  "COMMIT_ID_END_TAG = str ''<!-- commit_ids_reviewed_end -->''"

text \<open>
  \<open>s.split(sep, 1)\<close> for a separator that is not empty: the text before and the text
  after the first occurrence of \<open>sep\<close>, or \<open>None\<close> when \<open>sep\<close> does not occur (the
  result of \<open>split\<close> is then the one-element list of \<open>s\<close>).
\<close>

fun split_first :: "pystr \<Rightarrow> pystr \<Rightarrow> (pystr \<times> pystr) option" where
  "split_first sep [] = None"
| "split_first sep (c # cs) =
     (if startswith sep (c # cs) then Some ([], drop (length sep) (c # cs))
      else map_option (\<lambda>(before, after). (c # before, after)) (split_first sep cs))"

text \<open>
  \<open>get_content_within_tags\<close>: \<open>content.split(start_tag, 1)[1].split(end_tag, 1)[0].strip()\<close>
  when both tags occur in \<open>content\<close>. The end tag may occur only before the start tag;
  the second \<open>split\<close> then leaves the text after the start tag whole.
\<close>

definition get_content_within_tags :: "pystr \<Rightarrow> pystr \<Rightarrow> pystr \<Rightarrow> pystr" where
  "get_content_within_tags content start_tag end_tag =
     (if \<not> contains start_tag content \<or> \<not> contains end_tag content then []
      else case split_first start_tag content of
        None \<Rightarrow> []
      | Some (_, after) \<Rightarrow>
          (case split_first end_tag after of
             None \<Rightarrow> strip after
           | Some (inner, _) \<Rightarrow> strip inner))"

definition get_reviewed_commit_ids_block :: "pystr \<Rightarrow> pystr" where
  "get_reviewed_commit_ids_block summary =
     get_content_within_tags summary COMMIT_ID_START_TAG COMMIT_ID_END_TAG"

definition get_reviewed_commit_ids :: "pystr \<Rightarrow> pystr list" where
  "get_reviewed_commit_ids block =
     map strip (filter (\<lambda>line. strip line \<noteq> []) (splitlines block))"

text \<open>
  \<open>add_reviewed_commit_id\<close>. \<open>ledger_ids\<close> is the list \<open>ids\<close> of the source at the point
  where it is joined: the ids read from the block, with \<open>commit_id\<close> appended when it is
  not empty and not among them.
\<close>

definition ledger_ids :: "pystr \<Rightarrow> pystr \<Rightarrow> pystr list" where
  "ledger_ids existing_block commit_id =
     (let ids = (if existing_block \<noteq> [] then get_reviewed_commit_ids existing_block else [])
      in if commit_id \<noteq> [] \<and> commit_id \<notin> set ids then ids @ [commit_id] else ids)"

definition add_reviewed_commit_id :: "pystr \<Rightarrow> pystr \<Rightarrow> pystr" where
  "add_reviewed_commit_id existing_block commit_id =
     COMMIT_ID_START_TAG @ [10] @ join [10] (ledger_ids existing_block commit_id) @ [10]
       @ COMMIT_ID_END_TAG"

text \<open>
  An id that is written to the ledger and read back unchanged: not empty, no white space
  at either end, no line boundary inside. A commit SHA is such an id.
\<close>

definition is_clean_id :: "pystr \<Rightarrow> bool" where
  "is_clean_id x = (x \<noteq> [] \<and> \<not> is_space (hd x) \<and> \<not> is_space (last x)
                    \<and> list_all (\<lambda>c. \<not> is_linebreak c) x)"

section \<open>The reply chain of a review comment (github\_commenter.py)\<close>

text \<open>
  A review comment as the API returns it, with the fields that \<open>get_comment_chain\<close>
  reads. \<open>id\<close> and \<open>in_reply_to\<close> are \<open>None\<close> when the key is missing or null (the
  code does not tell the two apart); ids are the positive integers of GitHub, so a parent
  id is falsy when it is \<open>None\<close> or 0. \<open>user\<close> is missing, null or an object, whose
  \<open>login\<close> is missing, null or a string; \<open>body\<close> is missing, null or a string. A
  comment is an object with keys, hence truthy in \<open>while current\<close>.
\<close>

record review_comment =
  rc_id :: "nat option"
  rc_in_reply_to :: "nat option"
  rc_user :: "pystr field field"
  rc_body :: "pystr field"

text \<open>
  \<open>by_id = {c.get("id"): c for c in comments}\<close>: of two comments with the same id the
  later one is kept.
\<close>

definition by_id :: "review_comment list \<Rightarrow> (nat option \<rightharpoonup> review_comment)" where
  "by_id comments = map_of (rev (map (\<lambda>c. (rc_id c, c)) comments))"

text \<open>
  The \<open>while\<close> loop, as a function of \<open>top_level\<close>, \<open>chain\<close> and \<open>current\<close> at the head
  of the loop. It gives \<open>None\<close> when the loop does not end.
\<close>

partial_function (option) chain_walk ::
  "(nat option \<rightharpoonup> review_comment) \<Rightarrow> review_comment \<Rightarrow> review_comment list \<Rightarrow> review_comment
     \<Rightarrow> (review_comment list \<times> review_comment) option" where
  "chain_walk ids top_level chain current =
     (case rc_in_reply_to current of
        None \<Rightarrow> Some (chain @ [current], current)
      | Some parent_id \<Rightarrow>
          if parent_id = 0 then Some (chain @ [current], current)
          else (case ids (Some parent_id) of
                  None \<Rightarrow> Some (chain @ [current], top_level)
                | Some parent \<Rightarrow> chain_walk ids top_level (chain @ [current]) parent))"

text \<open>
  One line of the chain text,
  \<open>f"{c.get('user', {}).get('login', 'user')}: {c.get('body', '')}"\<close>. A missing user
  or login reads as \<open>user\<close>, a missing body as the empty string, a null login or body
  is printed as \<open>None\<close>, and a null user raises \<open>AttributeError\<close>.
\<close>

definition user_login :: "review_comment \<Rightarrow> pystr" where
  "user_login c =
     (case rc_user c of
        Value (Value login) \<Rightarrow> login
      | Value Null \<Rightarrow> str ''None''
      | _ \<Rightarrow> str ''user'')"

definition body_text :: "review_comment \<Rightarrow> pystr" where
  "body_text c = (case rc_body c of Missing \<Rightarrow> [] | Null \<Rightarrow> str ''None'' | Value b \<Rightarrow> b)"

definition line_text :: "review_comment \<Rightarrow> pystr" where
  "line_text c = user_login c @ str '': '' @ body_text c"

definition chain_line :: "review_comment \<Rightarrow> exn + pystr" where
  "chain_line c = (case rc_user c of Null \<Rightarrow> Inl AttributeError | _ \<Rightarrow> Inr (line_text c))"

text \<open>The lines of the comments in their order; the first line that raises ends it.\<close>

fun chain_lines :: "review_comment list \<Rightarrow> exn + pystr list" where
  "chain_lines [] = Inr []"
| "chain_lines (c # cs) =
     (case chain_line c of
        Inl e \<Rightarrow> Inl e
      | Inr l \<Rightarrow> (case chain_lines cs of Inl e \<Rightarrow> Inl e | Inr ls \<Rightarrow> Inr (l # ls)))"

text \<open>
  \<open>get_comment_chain\<close>, given the review comments that \<open>list_review_comments\<close> returned:
  \<open>None\<close> when the loop does not end, else the exception raised or the pair returned.
\<close>

definition get_comment_chain ::
  "review_comment list \<Rightarrow> review_comment \<Rightarrow> (exn + pystr \<times> review_comment) option" where
  "get_comment_chain comments comment =
     map_option
       (\<lambda>(chain, top_level).
          case chain_lines (rev chain) of
            Inl e \<Rightarrow> Inl e
          | Inr ls \<Rightarrow> Inr (join [10] ls, top_level))
       (chain_walk (by_id comments) comment [] comment)"

text \<open>
  A list of comments is linked when each one replies to the next: its parent id is
  truthy and \<open>by_id\<close> maps it to the next comment.
\<close>

fun linked :: "(nat option \<rightharpoonup> review_comment) \<Rightarrow> review_comment list \<Rightarrow> bool" where
  "linked ids [] = True"
| "linked ids [c] = True"
| "linked ids (c # d # cs) =
     ((case rc_in_reply_to c of None \<Rightarrow> False | Some p \<Rightarrow> p \<noteq> 0 \<and> ids (Some p) = Some d)
      \<and> linked ids (d # cs))"

text \<open>
  How a walk ends at its last comment: the comment has no parent id and is the top-level
  comment, or its parent is not among the listed comments and the top-level comment is
  still the triggering one.
\<close>

definition walk_end ::
  "(nat option \<rightharpoonup> review_comment) \<Rightarrow> review_comment \<Rightarrow> review_comment \<Rightarrow> review_comment \<Rightarrow> bool" where
  "walk_end ids trigger last_c top_level =
     (case rc_in_reply_to last_c of
        None \<Rightarrow> top_level = last_c
      | Some p \<Rightarrow> if p = 0 then top_level = last_c
                  else ids (Some p) = None \<and> top_level = trigger)"

text \<open>
  Two example threads: a top-level comment, a reply to it and a new reply to that reply
  which is not yet listed; and two comments that reply to each other.
\<close>

definition thread_top :: review_comment where
  "thread_top = \<lparr>rc_id = Some 7, rc_in_reply_to = None,
                  rc_user = Value (Value (str ''ann'')), rc_body = Value (str ''one'')\<rparr>"

definition thread_mid :: review_comment where
  "thread_mid = \<lparr>rc_id = Some 8, rc_in_reply_to = Some 7,
                  rc_user = Value (Value (str ''bob'')), rc_body = Value (str ''two'')\<rparr>"

definition thread_new :: review_comment where
  "thread_new = \<lparr>rc_id = Some 9, rc_in_reply_to = Some 8,
                  rc_user = Missing, rc_body = Value (str ''three'')\<rparr>"

definition cyc_a :: review_comment where
  "cyc_a = \<lparr>rc_id = Some 5, rc_in_reply_to = Some 6, rc_user = Missing, rc_body = Missing\<rparr>"

definition cyc_b :: review_comment where
  "cyc_b = \<lparr>rc_id = Some 6, rc_in_reply_to = Some 5, rc_user = Missing, rc_body = Missing\<rparr>"

text \<open>A top-level comment whose author's account is gone: its user is null.\<close>

definition ghost_comment :: review_comment where
  "ghost_comment = \<lparr>rc_id = Some 4, rc_in_reply_to = None, rc_user = Null,
                     rc_body = Value (str ''gone'')\<rparr>"

section \<open>Issue comments and the upsert by tag (github\_commenter.py)\<close>

text \<open>
  An issue comment as the API lists it: its id, and its body (\<open>None\<close> for a missing or
  null body, which \<open>comment.get("body") or ""\<close> reads as the empty string).
\<close>

record issue_comment =
  ic_id :: nat
  ic_body :: "pystr option"

definition body_or_empty :: "issue_comment \<Rightarrow> pystr" where
  "body_or_empty c = (case ic_body c of None \<Rightarrow> [] | Some b \<Rightarrow> b)"

definition has_tag :: "pystr \<Rightarrow> issue_comment \<Rightarrow> bool" where
  "has_tag tag c = contains tag (body_or_empty c)"

text \<open>The requests that write issue comments.\<close>

datatype comment_request =
  UpdateIssueComment nat pystr
| CreateIssueComment pystr

text \<open>
  \<open>upsert_issue_comment_by_tag\<close>, given the comments that \<open>list_issue_comments\<close>
  returned: the loop returns from the first comment whose body contains the tag with the
  request that updates it, and after the loop the request is the one that creates a
  comment.
\<close>

fun upsert_request :: "issue_comment list \<Rightarrow> pystr \<Rightarrow> pystr \<Rightarrow> comment_request" where
  "upsert_request [] body tag = CreateIssueComment body"
| "upsert_request (comment # rest) body tag =
     (if has_tag tag comment then UpdateIssueComment (ic_id comment) body
      else upsert_request rest body tag)"

text \<open>\<open>find_issue_comment_with_tag\<close>, given the listed comments.\<close>

fun find_issue_comment_with_tag :: "issue_comment list \<Rightarrow> pystr \<Rightarrow> issue_comment option" where
  "find_issue_comment_with_tag [] tag = None"
| "find_issue_comment_with_tag (comment # rest) tag =
     (if has_tag tag comment then Some comment else find_issue_comment_with_tag rest tag)"






definition SUMMARIZE_TAG :: pystr where
  "SUMMARIZE_TAG = str ''<!-- auto-generated comment: pr summary -->''"

section \<open>The review service (pr\_review\_service.py)\<close>

subsection \<open>Values, configuration and the outside world\<close>

text \<open>
  A field of a review comment is whatever JSON value the model's answer held there: null,
  a boolean, an integer or a string (numbers with a fraction, arrays and objects are left
  out). \<open>truthy\<close> is Python's truth value, \<open>py_str\<close> is \<open>str(v)\<close>.
\<close>

datatype jval = JNull | JBool bool | JInt int | JStr pystr

fun truthy :: "jval \<Rightarrow> bool" where
  "truthy JNull = False"
| "truthy (JBool b) = b"
| "truthy (JInt i) = (i \<noteq> 0)"
| "truthy (JStr s) = (s \<noteq> [])"

definition str_of_int :: "int \<Rightarrow> pystr" where
  "str_of_int i = (if i < 0 then 45 # str_of_nat (nat (- i)) else str_of_nat (nat i))"

fun py_str :: "jval \<Rightarrow> pystr" where
  "py_str JNull = str ''None''"
| "py_str (JBool b) = (if b then str ''True'' else str ''False'')"
| "py_str (JInt i) = str_of_int i"
| "py_str (JStr s) = s"

text \<open>
  What the code takes from the Python runtime and its Unicode tables: the decimal digits,
  \<open>str.lower\<close>, and \<open>int(s)\<close> for a string \<open>s\<close> (\<open>None\<close> when it raises
  \<open>ValueError\<close>).
\<close>

record runtime =
  rt_digit :: digits
  rt_lower :: "pystr \<Rightarrow> pystr"
  rt_int :: "pystr \<Rightarrow> int option"

text \<open>
  The fields of \<open>PRReviewService\<close> that the review reads, with the environment settings
  that are read later (\<open>REVIEW_MAX_COMMENTS\<close>, the greeting of the comments). Only the
  truth value of the token matters.
\<close>

record config =
  github_token :: bool
  review_simple_changes :: bool
  simple_change_threshold :: int
  skip_extensions :: "pystr list"
  review_comment_lgtm :: bool
  max_files :: int
  ignore_keyword :: pystr
  update_description :: bool
  max_comments :: int
  comment_greeting :: pystr

text \<open>
  The pull request as \<open>get_pr_details\<close> returns it, and a file of the comparison. A
  field is \<open>None\<close> when its key is missing or null.
\<close>

record pr_details =
  pr_title :: pystr
  pr_body :: "pystr option"
  pr_head_sha :: "pystr option"
  pr_base_sha :: "pystr option"

record file_change =
  fc_filename :: "pystr option"
  fc_patch :: "pystr option"
  fc_additions :: int
  fc_deletions :: int

text \<open>
  A review comment as parsed from the answer of the model: an object whose keys may be
  missing (\<open>None\<close>).
\<close>

record review_item =
  ri_path :: "jval option"
  ri_line :: "jval option"
  ri_start_line :: "jval option"
  ri_end_line :: "jval option"
  ri_comment :: "jval option"

record review_result =
  rr_summary :: pystr
  rr_release_notes :: "pystr list"
  rr_raw_summary :: pystr
  rr_short_summary :: pystr
  rr_review_comments :: "review_item list"
  rr_reviewed_sha :: pystr
  rr_skipped :: bool
  rr_skip_reason :: pystr

text \<open>
  The language models are opaque: what \<open>_run_file_summary\<close> returns for a file (summary
  and triage), what \<open>_run_summary\<close> returns for the raw summary (summary, release notes,
  short summary), and the objects in the array that the review prompt is answered with.
\<close>

record llm =
  file_summary :: "pr_details \<Rightarrow> pystr \<Rightarrow> pystr \<Rightarrow> pystr \<times> pystr"
  run_summary :: "pystr \<Rightarrow> pystr \<times> pystr list \<times> pystr"
  review_items :: "pystr \<Rightarrow> pystr \<Rightarrow> pystr \<Rightarrow> review_item list"

text \<open>
  GitHub, as one review cycle reads it. The pull request and the issue comments are
  fetched several times in a cycle; the fetches are numbered in the order of the code
  (details: 0 in \<open>review_pr\<close>, 1 in \<open>post_review\<close>; comments: 0 in \<open>review_pr\<close>, 1 and 2
  in \<open>post_review\<close>). \<open>get_pr_details\<close> and \<open>compare_branches\<close> return \<open>None\<close> when
  the request fails; the requests of the commenter raise. The commits come in pages, and
  a page past the last one is empty.
\<close>

record github =
  gh_pr_details :: "nat \<Rightarrow> pr_details option"
  gh_issue_comments :: "nat \<Rightarrow> exn + issue_comment list"
  gh_commit_pages :: "(exn + pystr option list) list"
  gh_compare :: "pystr option \<Rightarrow> pystr option \<Rightarrow> file_change list option"

text \<open>
  What a cycle does besides returning: the calls of the language models and the requests
  that publish, in their order.
\<close>

record payload_comment =
  pc_path :: jval
  pc_body :: pystr
  pc_line :: int
  pc_start_line :: "int option"

datatype event =
  LLMFileSummary pystr
| LLMSummary pystr
| LLMFileReview pystr
| PubIssueComment comment_request
| PubDescription pystr
| PubReview pystr "payload_comment list"

definition is_llm :: "event \<Rightarrow> bool" where
  "is_llm e = (case e of LLMFileSummary _ \<Rightarrow> True | LLMSummary _ \<Rightarrow> True
                | LLMFileReview _ \<Rightarrow> True | _ \<Rightarrow> False)"

definition is_publish :: "event \<Rightarrow> bool" where
  "is_publish e = (case e of PubIssueComment _ \<Rightarrow> True | PubDescription _ \<Rightarrow> True
                    | PubReview _ _ \<Rightarrow> True | _ \<Rightarrow> False)"

definition is_file_review :: "event \<Rightarrow> bool" where
  "is_file_review e = (case e of LLMFileReview _ \<Rightarrow> True | _ \<Rightarrow> False)"

definition is_pub_review :: "event \<Rightarrow> bool" where
  "is_pub_review e = (case e of PubReview _ _ \<Rightarrow> True | _ \<Rightarrow> False)"

definition opt_str :: "pystr option \<Rightarrow> pystr" where
  "opt_str s = (case s of None \<Rightarrow> [] | Some x \<Rightarrow> x)"

subsection \<open>Classification of the change\<close>

text \<open>\<open>name.split(".")[-1]\<close>: the text after the last dot, or all of it.\<close>

definition after_last_dot :: "pystr \<Rightarrow> pystr" where
  "after_last_dot s = rev (takeWhile (\<lambda>c. c \<noteq> 46) (rev s))"

definition total_changes :: "file_change list \<Rightarrow> int" where
  "total_changes files = sum_list (map (\<lambda>f. fc_additions f + fc_deletions f) files)"

definition extensions :: "runtime \<Rightarrow> file_change list \<Rightarrow> pystr list" where
  "extensions rt files =
     map (\<lambda>f. rt_lower rt (after_last_dot (opt_str (fc_filename f))))
       (filter (\<lambda>f. opt_str (fc_filename f) \<noteq> []) files)"

definition simple_reason_text :: "config \<Rightarrow> pystr" where
  "simple_reason_text cfg =
     str ''simple changes (<= '' @ str_of_int (simple_change_threshold cfg) @ str '' lines)''"

definition should_skip_review :: "runtime \<Rightarrow> config \<Rightarrow> file_change list \<Rightarrow> bool \<times> pystr" where
  "should_skip_review rt cfg files =
     (if \<not> review_simple_changes cfg \<and> total_changes files \<le> simple_change_threshold cfg
      then (True, simple_reason_text cfg)
      else if extensions rt files \<noteq> []
              \<and> set (extensions rt files) \<subseteq> set (skip_extensions cfg)
      then (True, str ''documentation-only changes'')
      else (False, []))"

subsection \<open>The review of the files\<close>

definition path_of :: "file_change \<Rightarrow> pystr" where
  "path_of file = opt_str (fc_filename file)"

definition patch_of :: "file_change \<Rightarrow> pystr" where
  "patch_of file = opt_str (fc_patch file)"

text \<open>
  The first loop of \<open>review_pr\<close> over the files: it appends to \<open>summaries\<close>, and it
  breaks when \<open>max_files\<close> summaries are there.
\<close>

fun summarize_loop ::
  "runtime \<Rightarrow> config \<Rightarrow> llm \<Rightarrow> pr_details \<Rightarrow> (pystr \<times> pystr \<times> pystr) list
     \<Rightarrow> file_change list \<Rightarrow> (pystr \<times> pystr \<times> pystr) list \<times> event list" where
  "summarize_loop rt cfg m pr summaries [] = (summaries, [])"
| "summarize_loop rt cfg m pr summaries (file # rest) =
     (if path_of file = [] \<or> patch_of file = [] then summarize_loop rt cfg m pr summaries rest
      else if (if 46 \<in> set (path_of file) then rt_lower rt (after_last_dot (path_of file))
               else []) \<in> set (skip_extensions cfg)
      then summarize_loop rt cfg m pr summaries rest
      else
        let (summary, triage) = file_summary m pr (path_of file) (patch_of file);
            summaries' = summaries @ [(path_of file, summary, triage)]
        in if max_files cfg > 0 \<and> int (length summaries') \<ge> max_files cfg
           then (summaries', [LLMFileSummary (path_of file)])
           else (case summarize_loop rt cfg m pr summaries' rest of
                   (result, events) \<Rightarrow> (result, LLMFileSummary (path_of file) # events)))"

text \<open>\<open>next((t for p, _, t in summaries if p == path), "NEEDS_REVIEW")\<close>\<close>

fun triage_of :: "(pystr \<times> pystr \<times> pystr) list \<Rightarrow> pystr \<Rightarrow> pystr" where
  "triage_of [] path = str ''NEEDS_REVIEW''"
| "triage_of ((p, s, t) # rest) path = (if p = path then t else triage_of rest path)"

text \<open>
  \<open>_run_file_review\<close>: no call of the model when the numbered hunks are blank;
  otherwise each object of the answer gets the path of the file when it has none,
  \<open>end_line\<close> from \<open>line\<close>, and \<open>start_line\<close> from \<open>end_line\<close>.
\<close>

definition normalize_item :: "pystr \<Rightarrow> review_item \<Rightarrow> review_item" where
  "normalize_item path item =
     (let item1 = (if (case ri_path item of None \<Rightarrow> True | Some v \<Rightarrow> \<not> truthy v)
                   then item\<lparr>ri_path := Some (JStr path)\<rparr> else item);
          item2 = (if ri_line item1 \<noteq> None \<and> ri_end_line item1 = None
                   then item1\<lparr>ri_end_line := ri_line item1\<rparr> else item1)
      in if ri_start_line item2 = None \<and> ri_end_line item2 \<noteq> None
         then item2\<lparr>ri_start_line := ri_end_line item2\<rparr> else item2)"

definition run_file_review ::
  "runtime \<Rightarrow> llm \<Rightarrow> pystr \<Rightarrow> pystr \<Rightarrow> pystr \<Rightarrow> review_item list \<times> event list" where
  "run_file_review rt m path patch short_summary =
     (let numbered_hunks = extract_numbered_hunks (rt_digit rt) patch
      in if strip numbered_hunks = [] then ([], [])
         else (map (normalize_item path) (review_items m path numbered_hunks short_summary),
               [LLMFileReview path]))"

text \<open>The second loop of \<open>review_pr\<close> over the files.\<close>

fun review_loop ::
  "runtime \<Rightarrow> config \<Rightarrow> llm \<Rightarrow> (pystr \<times> pystr \<times> pystr) list \<Rightarrow> pystr \<Rightarrow> pystr
     \<Rightarrow> file_change list \<Rightarrow> review_item list \<times> event list" where
  "review_loop rt cfg m summaries simple_reason short_summary [] = ([], [])"
| "review_loop rt cfg m summaries simple_reason short_summary (file # rest) =
     (if path_of file = [] \<or> patch_of file = []
      then review_loop rt cfg m summaries simple_reason short_summary rest
      else if \<not> review_simple_changes cfg \<and> simple_reason \<noteq> []
      then review_loop rt cfg m summaries simple_reason short_summary rest
      else if \<not> review_simple_changes cfg
              \<and> triage_of summaries (path_of file) = str ''APPROVED''
      then review_loop rt cfg m summaries simple_reason short_summary rest
      else
        (case run_file_review rt m (path_of file) (patch_of file) short_summary of
           (comments, events) \<Rightarrow>
             (case review_loop rt cfg m summaries simple_reason short_summary rest of
                (further, later) \<Rightarrow> (comments @ further, events @ later))))"

text \<open>
  \<open>review_pr\<close> from the point where the list of files is known not to be empty.
\<close>

definition review_files ::
  "runtime \<Rightarrow> config \<Rightarrow> llm \<Rightarrow> pr_details \<Rightarrow> file_change list \<Rightarrow> review_result \<times> event list" where
  "review_files rt cfg m pr files =
     (let (skipped, reason) = should_skip_review rt cfg files;
          skip_reviews = (skipped \<and> reason = str ''documentation-only changes'');
          simple_reason = (if skipped then reason else []);
          (summaries, events1) = summarize_loop rt cfg m pr [] files;
          raw_summary = join [10] (map (\<lambda>(path, summary, _). path @ str '': '' @ summary) summaries);
          (summary, release_notes, short_summary) = run_summary m raw_summary;
          (review_comments, events2) =
             (if skip_reviews then ([], [])
              else review_loop rt cfg m summaries simple_reason short_summary files)
      in (\<lparr>rr_summary = summary, rr_release_notes = release_notes,
           rr_raw_summary = raw_summary, rr_short_summary = short_summary,
           rr_review_comments = review_comments,
           rr_reviewed_sha = opt_str (pr_head_sha pr),
           rr_skipped = False, rr_skip_reason = []\<rparr>,
          events1 @ [LLMSummary raw_summary] @ events2))"

subsection \<open>One review cycle\<close>

text \<open>
  \<open>get_all_commit_ids\<close>: the pages are requested until one is empty; a failed request
  raises.
\<close>

fun get_all_commit_ids :: "(exn + pystr option list) list \<Rightarrow> exn + pystr list" where
  "get_all_commit_ids [] = Inr []"
| "get_all_commit_ids (Inl e # pages) = Inl e"
| "get_all_commit_ids (Inr data # pages) =
     (if data = [] then Inr []
      else (case get_all_commit_ids pages of
              Inl e \<Rightarrow> Inl e
            | Inr commits \<Rightarrow> Inr (filter (\<lambda>sha. sha \<noteq> []) (map opt_str data) @ commits)))"

definition skipped_result :: "pystr \<Rightarrow> pystr \<Rightarrow> review_result" where
  "skipped_result sha reason =
     \<lparr>rr_summary = [], rr_release_notes = [], rr_raw_summary = [], rr_short_summary = [],
      rr_review_comments = [], rr_reviewed_sha = sha, rr_skipped = True,
      rr_skip_reason = reason\<rparr>"

text \<open>
  The commit that the comparison starts from: the highest reviewed commit, or the base of
  the pull request when there is none.
\<close>

definition compare_base ::
  "pr_details \<Rightarrow> issue_comment list \<Rightarrow> pystr list \<Rightarrow> pystr option" where
  "compare_base pr comments all_commits =
     (let existing_summary = find_issue_comment_with_tag comments SUMMARIZE_TAG;
          existing_body = (case existing_summary of None \<Rightarrow> [] | Some c \<Rightarrow> body_or_empty c);
          existing_block = get_reviewed_commit_ids_block existing_body;
          reviewed_ids = get_reviewed_commit_ids existing_block;
          highest_reviewed = get_highest_reviewed_commit_id all_commits reviewed_ids
      in if highest_reviewed \<noteq> [] then Some highest_reviewed else pr_base_sha pr)"

definition review_pr ::
  "runtime \<Rightarrow> config \<Rightarrow> llm \<Rightarrow> github \<Rightarrow> (exn + review_result) \<times> event list" where
  "review_pr rt cfg m gh =
     (case gh_pr_details gh 0 of
        None \<Rightarrow> (Inr (skipped_result [] (str ''failed to fetch PR details'')), [])
      | Some pr \<Rightarrow>
          if ignore_keyword cfg \<noteq> [] \<and> contains (ignore_keyword cfg) (opt_str (pr_body pr))
          then (Inr (skipped_result [] (str ''ignored by keyword'')), [])
          else
            (case gh_issue_comments gh 0 of
               Inl e \<Rightarrow> (Inl e, [])
             | Inr comments \<Rightarrow>
                 (case (if github_token cfg then get_all_commit_ids (gh_commit_pages gh)
                        else Inr []) of
                    Inl e \<Rightarrow> (Inl e, [])
                  | Inr all_commits \<Rightarrow>
                      (case gh_compare gh (compare_base pr comments all_commits) (pr_head_sha pr) of
                         None \<Rightarrow>
                           (Inr (skipped_result (opt_str (pr_head_sha pr))
                                   (str ''failed to compare commits'')), [])
                       | Some files \<Rightarrow>
                           if files = []
                           then (Inr (skipped_result (opt_str (pr_head_sha pr))
                                        (str ''no files to review'')), [])
                           else (case review_files rt cfg m pr files of
                                   (result, events) \<Rightarrow> (Inr result, events))))))"

subsection \<open>Publishing\<close>

definition COMMENT_TAG :: pystr where
  "COMMENT_TAG = str ''<!-- auto-generated comment: pr review -->''"

definition RAW_SUMMARY_START_TAG :: pystr where
  "RAW_SUMMARY_START_TAG = str ''<!-- auto-generated: raw summary start -->'' @ [10] @ str ''<!--''"

definition RAW_SUMMARY_END_TAG :: pystr where
  "RAW_SUMMARY_END_TAG = str ''-->'' @ [10] @ str ''<!-- auto-generated: raw summary end -->''"

definition SHORT_SUMMARY_START_TAG :: pystr where
  "SHORT_SUMMARY_START_TAG =
     str ''<!-- auto-generated: short summary start -->'' @ [10] @ str ''<!--''"

definition SHORT_SUMMARY_END_TAG :: pystr where
  "SHORT_SUMMARY_END_TAG =
     str ''-->'' @ [10] @ str ''<!-- auto-generated: short summary end -->''"

definition release_lines :: "pystr list \<Rightarrow> pystr" where
  "release_lines notes = join [10] (map (\<lambda>n. str ''- '' @ n) notes)"

definition build_summary_comment ::
  "pystr \<Rightarrow> pystr list \<Rightarrow> pystr \<Rightarrow> pystr \<Rightarrow> pystr \<Rightarrow> pystr" where
  "build_summary_comment summary release_notes raw_summary short_summary commit_id_block =
     SUMMARIZE_TAG @ [10]
     @ str ''### Summary'' @ [10, 10] @ summary @ [10, 10]
     @ str ''### Release Notes'' @ [10]
     @ (if release_notes \<noteq> [] then release_lines release_notes else str ''- (none)'')
     @ [10, 10]
     @ RAW_SUMMARY_START_TAG @ [10] @ raw_summary @ [10] @ RAW_SUMMARY_END_TAG @ [10]
     @ SHORT_SUMMARY_START_TAG @ [10] @ short_summary @ [10] @ SHORT_SUMMARY_END_TAG @ [10, 10]
     @ commit_id_block @ [10]"

text \<open>\<open>xs[:n]\<close>: a negative \<open>n\<close> counts from the end.\<close>

definition py_take :: "int \<Rightarrow> 'a list \<Rightarrow> 'a list" where
  "py_take n xs = (if n \<ge> 0 then take (nat n) xs else take (nat (int (length xs) + n)) xs)"

text \<open>\<open>v or d\<close> for a field that may be missing, and \<open>int(v)\<close>.\<close>

definition or_default :: "jval option \<Rightarrow> jval \<Rightarrow> jval" where
  "or_default v d = (case v of None \<Rightarrow> d | Some x \<Rightarrow> if truthy x then x else d)"

fun py_int :: "runtime \<Rightarrow> jval \<Rightarrow> exn + int" where
  "py_int rt (JInt i) = Inr i"
| "py_int rt (JBool b) = Inr (if b then 1 else 0)"
| "py_int rt (JStr s) = (case rt_int rt s of None \<Rightarrow> Inl ValueError | Some i \<Rightarrow> Inr i)"
| "py_int rt JNull = Inl TypeError"

text \<open>
  An entry of \<open>review_comments_buffer\<close> as \<open>buffer_review_comment\<close> appends it: the
  message is wrapped between the greeting and the tag of the review comments.
\<close>

record buffered_comment =
  bc_path :: jval
  bc_start_line :: int
  bc_end_line :: int
  bc_message :: pystr

definition buffer_review_comment ::
  "config \<Rightarrow> jval \<Rightarrow> int \<Rightarrow> int \<Rightarrow> jval \<Rightarrow> buffered_comment" where
  "buffer_review_comment cfg path start_line end_line message =
     \<lparr>bc_path = path, bc_start_line = start_line, bc_end_line = end_line,
      bc_message = comment_greeting cfg @ [10, 10] @ py_str message @ [10, 10] @ COMMENT_TAG\<rparr>"

text \<open>
  The loop of \<open>post_review\<close> over the comments, in the order of its statements: the two
  conversions with \<open>int\<close> come before the tests, and \<open>"LGTM" in message\<close> raises
  \<open>TypeError\<close> for a message that is not a string. The result is what the loop has
  appended to the buffer, or the exception that ended it.
\<close>

fun buffer_loop :: "runtime \<Rightarrow> config \<Rightarrow> review_item list \<Rightarrow> exn + buffered_comment list" where
  "buffer_loop rt cfg [] = Inr []"
| "buffer_loop rt cfg (comment # rest) =
     (let path = or_default (ri_path comment) (JStr [])
      in case py_int rt (or_default (ri_start_line comment) (JInt 0)) of
           Inl e \<Rightarrow> Inl e
         | Inr start_line \<Rightarrow>
            (case py_int rt (or_default (ri_end_line comment) (JInt 0)) of
               Inl e \<Rightarrow> Inl e
             | Inr end_line \<Rightarrow>
                 let message = or_default (ri_comment comment) (JStr [])
                 in if \<not> truthy path \<or> \<not> truthy message \<or> end_line \<le> 0
                    then buffer_loop rt cfg rest
                    else if \<not> review_comment_lgtm cfg
                            \<and> (case message of JStr s \<Rightarrow> False | _ \<Rightarrow> True)
                    then Inl TypeError
                    else if \<not> review_comment_lgtm cfg
                            \<and> contains (str ''LGTM'') (py_str message)
                    then buffer_loop rt cfg rest
                    else (case buffer_loop rt cfg rest of
                            Inl e \<Rightarrow> Inl e
                          | Inr buffer \<Rightarrow>
                              Inr (buffer_review_comment cfg path
                                     (if start_line \<noteq> 0 then start_line else end_line)
                                     end_line message # buffer))))"

text \<open>The comments of the review that \<open>submit_review\<close> posts, from the buffer.\<close>

definition comments_payload :: "buffered_comment list \<Rightarrow> payload_comment list" where
  "comments_payload buffer =
     map (\<lambda>c. \<lparr>pc_path = bc_path c, pc_body = bc_message c, pc_line = bc_end_line c,
               pc_start_line = (if bc_start_line c \<noteq> bc_end_line c
                                then Some (bc_start_line c) else None)\<rparr>) buffer"

text \<open>
  \<open>post_review\<close>. The requests that publish are recorded as events; the model does not
  follow what becomes of them on GitHub.
\<close>

definition publish ::
  "runtime \<Rightarrow> config \<Rightarrow> github \<Rightarrow> review_result \<Rightarrow> exn option \<times> event list" where
  "publish rt cfg gh result =
     (let commit_id = (case gh_pr_details gh 1 of None \<Rightarrow> None | Some pr \<Rightarrow> pr_head_sha pr)
      in case gh_issue_comments gh 1 of
           Inl e \<Rightarrow> (Some e, [])
         | Inr listed \<Rightarrow>
            (let existing_summary = find_issue_comment_with_tag listed SUMMARIZE_TAG;
                 existing_body = (case existing_summary of None \<Rightarrow> [] | Some c \<Rightarrow> body_or_empty c);
                 existing_block = get_reviewed_commit_ids_block existing_body;
                 commit_id_block = add_reviewed_commit_id existing_block (rr_reviewed_sha result);
                 summary_body = build_summary_comment (rr_summary result) (rr_release_notes result)
                                  (rr_raw_summary result) (rr_short_summary result) commit_id_block
             in case gh_issue_comments gh 2 of
                  Inl e \<Rightarrow> (Some e, [])
                | Inr comments \<Rightarrow>
                   (let events1 = [PubIssueComment (upsert_request comments summary_body SUMMARIZE_TAG)];
                        events2 = (if update_description cfg \<and> rr_release_notes result \<noteq> []
                                   then [PubDescription (release_lines (rr_release_notes result))]
                                   else [])
                    in if opt_str commit_id \<noteq> [] \<and> rr_review_comments result \<noteq> []
                       then (case buffer_loop rt cfg
                                    (py_take (max_comments cfg) (rr_review_comments result)) of
                               Inl e \<Rightarrow> (Some e, events1 @ events2)
                             | Inr buffer \<Rightarrow>
                                 (None, events1 @ events2
                                        @ [PubReview (opt_str commit_id) (comments_payload buffer)]))
                       else (None, events1 @ events2))))"

definition post_review ::
  "runtime \<Rightarrow> config \<Rightarrow> llm \<Rightarrow> github \<Rightarrow> (exn + review_result) \<times> event list" where
  "post_review rt cfg m gh =
     (case review_pr rt cfg m gh of
        (Inl e, events) \<Rightarrow> (Inl e, events)
      | (Inr result, events) \<Rightarrow>
          if rr_skipped result then (Inr result, events)
          else if \<not> github_token cfg then (Inr result, events)
          else (case publish rt cfg gh result of
                  (Some e, published) \<Rightarrow> (Inl e, events @ published)
                | (None, published) \<Rightarrow> (Inr result, events @ published)))"

subsection \<open>Concrete inputs\<close>

text \<open>
  A runtime for ASCII text: the digits 0 to 9, \<open>lower\<close> on the letters A to Z, and
  \<open>int\<close> on a decimal numeral (white space around it, a sign, single underscores between
  digits). The configuration is the one of \<open>__init__\<close> with no environment setting, and
  a token.
\<close>

definition ascii_int :: "pystr \<Rightarrow> int option" where
  "ascii_int s =
     (let t = strip s;
          neg = (t \<noteq> [] \<and> hd t = 45);
          u = (if t \<noteq> [] \<and> (hd t = 45 \<or> hd t = 43) then tl t else t)
      in if u \<noteq> [] \<and> is_digit ascii_digit (hd u) \<and> is_digit ascii_digit (last u)
            \<and> list_all (\<lambda>c. is_digit ascii_digit c \<or> c = 95) u
            \<and> \<not> contains [95, 95] u
         then Some ((if neg then - 1 else 1)
                    * int (int_of_digits ascii_digit (filter (\<lambda>c. c \<noteq> 95) u)))
         else None)"

definition ascii_runtime :: runtime where
  "ascii_runtime =
     \<lparr>rt_digit = ascii_digit,
      rt_lower = map (\<lambda>c. if 65 \<le> c \<and> c \<le> 90 then c + 32 else c),
      rt_int = ascii_int\<rparr>"

definition default_config :: config where
  "default_config =
     \<lparr>github_token = True, review_simple_changes = False, simple_change_threshold = 20,
      skip_extensions = [str ''md'', str ''txt'', str ''rst'', str ''png'', str ''jpg'',
                         str ''jpeg'', str ''gif''],
      review_comment_lgtm = False, max_files = 0,
      ignore_keyword = str ''@coderabbitai: ignore'', update_description = True,
      max_comments = 20, comment_greeting = str ''CodeRabbit''\<rparr>"

text \<open>
  Language models with fixed answers: every file needs review, and the review of a file
  returns the given objects.
\<close>

definition fixed_llm :: "review_item list \<Rightarrow> llm" where
  "fixed_llm items =
     \<lparr>file_summary = (\<lambda>pr path patch. (str ''changed'', str ''NEEDS_REVIEW'')),
      run_summary = (\<lambda>raw. (str ''summary'', [str ''note''], str ''short'')),
      review_items = (\<lambda>path hunks short. items)\<rparr>"

definition example_pr :: pr_details where
  "example_pr = \<lparr>pr_title = str ''t'', pr_body = Some (str ''d''),
                  pr_head_sha = Some (str ''h1''), pr_base_sha = Some (str ''b0'')\<rparr>"

definition example_path :: pystr where
  "example_path = str ''a.py''"

definition example_patch :: pystr where
  "example_patch = str ''@@ -1 +1 @@'' @ [10] @ str ''+x''"

definition example_file :: "int \<Rightarrow> int \<Rightarrow> file_change" where
  "example_file a d =
     \<lparr>fc_filename = Some example_path, fc_patch = Some example_patch,
      fc_additions = a, fc_deletions = d\<rparr>"

text \<open>
  GitHub with the example pull request, no comments and no commits listed, and the given
  files in every comparison; and the same with a listing of the issue comments that
  fails.
\<close>

definition example_github :: "file_change list \<Rightarrow> github" where
  "example_github files =
     \<lparr>gh_pr_details = (\<lambda>n. Some example_pr),
      gh_issue_comments = (\<lambda>n. Inr []),
      gh_commit_pages = [],
      gh_compare = (\<lambda>base head. Some files)\<rparr>"

definition failing_github :: github where
  "failing_github = (example_github [example_file 30 10])\<lparr>gh_issue_comments := (\<lambda>n. Inl RequestError)\<rparr>"

definition bad_line_item :: review_item where
  "bad_line_item =
     \<lparr>ri_path = Some (JStr example_path), ri_line = None, ri_start_line = Some (JInt 1),
      ri_end_line = Some (JStr (str ''abc'')), ri_comment = Some (JStr (str ''fix this''))\<rparr>"

section \<open>Properties\<close>

subsection \<open>The ledger\<close>

lemma highest_loop_filter:
  "highest_loop h cs reviewed =
     (case filter (\<lambda>sha. sha \<in> set reviewed) cs of [] \<Rightarrow> h | x # xs \<Rightarrow> last (x # xs))"
  by (induction cs arbitrary: h) (auto split: list.splits)

text \<open>
  C1. \<open>get_highest_reviewed_commit_id\<close> returns the last element of the chronological
  commit list that is also in the reviewed list, and the empty string when no commit of
  the list is reviewed. With the ledger c1, c3 and the history c0, c1, c2, c3, c4 the
  result is c3; it stays c3 when the ledger lists c3 before c1, so the position in the
  history decides, not the order of the ledger.
\<close>

theorem highest_reviewed_is_last_reviewed:
  "get_highest_reviewed_commit_id all_commits reviewed =
     (case filter (\<lambda>sha. sha \<in> set reviewed) all_commits of
        [] \<Rightarrow> []
      | x # xs \<Rightarrow> last (x # xs))
   \<and> get_highest_reviewed_commit_id
       [str ''c0'', str ''c1'', str ''c2'', str ''c3'', str ''c4''] [str ''c1'', str ''c3'']
     = str ''c3''
   \<and> get_highest_reviewed_commit_id
       [str ''c0'', str ''c1'', str ''c2'', str ''c3'', str ''c4''] [str ''c3'', str ''c1'']
     = str ''c3''"
  by (simp add: get_highest_reviewed_commit_id_def highest_loop_filter str_def)

lemma get_reviewed_commit_ids_Nil: "get_reviewed_commit_ids [] = []"
  by (simp add: get_reviewed_commit_ids_def splitlines_def)

lemma ledger_ids_eq:
  "ledger_ids block c =
     (if c \<noteq> [] \<and> c \<notin> set (get_reviewed_commit_ids block)
      then get_reviewed_commit_ids block @ [c] else get_reviewed_commit_ids block)"
  by (cases "block = []") (simp_all add: ledger_ids_def get_reviewed_commit_ids_Nil)

lemma splitlines_acc_line:
  "\<forall>c\<in>set x. \<not> is_linebreak c \<Longrightarrow> splitlines_acc acc (x @ rest) = splitlines_acc (rev x @ acc) rest"
proof (induction x arbitrary: acc)
  case Nil
  then show ?case by simp
next
  case (Cons c x)
  then have c: "\<not> is_linebreak c" and c13: "c \<noteq> 13" by (auto simp: is_linebreak_def)
  have ih: "splitlines_acc (c # acc) (x @ rest) = splitlines_acc (rev x @ c # acc) rest"
    using Cons.IH [of "c # acc"] Cons.prems by simp
  have "splitlines_acc acc (c # (x @ rest)) = splitlines_acc (c # acc) (x @ rest)"
    using c c13 by (cases "x @ rest") simp_all
  then show ?case using ih by simp
qed

lemma splitlines_acc_LF: "splitlines_acc acc (10 # rest) = rev acc # splitlines_acc [] rest"
  by (cases rest) (simp_all add: is_linebreak_def)

lemma splitlines_join:
  "\<forall>x\<in>set xs. x \<noteq> [] \<and> (\<forall>c\<in>set x. \<not> is_linebreak c) \<Longrightarrow> splitlines (join [10] xs) = xs"
proof (induction "[10::nat]" xs rule: join.induct)
  case 1
  then show ?case by (simp add: splitlines_def)
next
  case (2 x)
  then show ?case
    using splitlines_acc_line [of x "[]" "[]"] by (simp add: splitlines_def)
next
  case (3 x y ys)
  have "splitlines_acc [] (x @ 10 # join [10] (y # ys)) = x # splitlines_acc [] (join [10] (y # ys))"
    using 3(2) splitlines_acc_line [of x "[]" "10 # join [10] (y # ys)"]
    by (simp add: splitlines_acc_LF)
  then show ?case using 3 by (simp add: splitlines_def)
qed

lemma strip_clean: "x \<noteq> [] \<Longrightarrow> \<not> is_space (hd x) \<Longrightarrow> \<not> is_space (last x) \<Longrightarrow> strip x = x"
proof -
  assume a: "x \<noteq> []" "\<not> is_space (hd x)" "\<not> is_space (last x)"
  then have "dropWhile is_space x = x" by (cases x) auto
  moreover have "dropWhile is_space (rev x) = rev x"
    using a by (cases "rev x") (auto simp: last_rev [symmetric] hd_rev)
  ultimately show ?thesis by (simp add: strip_def)
qed

lemma ids_of_clean:
  "\<forall>x\<in>set xs. is_clean_id x \<Longrightarrow> get_reviewed_commit_ids (join [10] xs) = xs"
proof -
  assume a: "\<forall>x\<in>set xs. is_clean_id x"
  then have "splitlines (join [10] xs) = xs"
    by (intro splitlines_join) (auto simp: is_clean_id_def list_all_iff)
  moreover have "strip x = x \<and> x \<noteq> []" if "x \<in> set xs" for x
    using a that strip_clean by (auto simp: is_clean_id_def)
  ultimately show ?thesis
    by (simp add: get_reviewed_commit_ids_def filter_id_conv map_idI)
qed

lemma splitlines_acc_no_break:
  "\<forall>c\<in>set acc. \<not> is_linebreak c \<Longrightarrow> l \<in> set (splitlines_acc acc s) \<Longrightarrow> c \<in> set l \<Longrightarrow> \<not> is_linebreak c"
  by (induction acc s rule: splitlines_acc.induct) (auto split: if_splits)

lemma set_strip: "set (strip l) \<subseteq> set l"
  by (auto simp: strip_def dest!: set_dropWhileD)

lemma hd_strip: "strip l \<noteq> [] \<Longrightarrow> \<not> is_space (hd (strip l))"
proof -
  assume a: "strip l \<noteq> []"
  let ?d = "dropWhile is_space l"
  let ?e = "dropWhile is_space (rev ?d)"
  have e: "?e \<noteq> []" using a by (simp add: strip_def)
  then have d: "?d \<noteq> []" by (cases "dropWhile is_space l") simp_all
  have "hd (strip l) = last ?e" using e by (simp add: strip_def hd_rev)
  also have "\<dots> = last (rev ?d)"
    using e by (metis dropWhile_eq_drop last_drop length_drop length_greater_0_conv zero_less_diff)
  also have "\<dots> = hd ?d" using d by (simp add: last_rev)
  finally show ?thesis using d hd_dropWhile by metis
qed

lemma last_strip: "strip l \<noteq> [] \<Longrightarrow> \<not> is_space (last (strip l))"
proof -
  assume a: "strip l \<noteq> []"
  let ?e = "dropWhile is_space (rev (dropWhile is_space l))"
  have e: "?e \<noteq> []" using a by (simp add: strip_def)
  have "last (strip l) = hd ?e" using e by (simp add: strip_def last_rev)
  then show ?thesis using e hd_dropWhile by metis
qed

lemma reviewed_ids_clean: "x \<in> set (get_reviewed_commit_ids block) \<Longrightarrow> is_clean_id x"
proof -
  assume "x \<in> set (get_reviewed_commit_ids block)"
  then obtain l where l: "l \<in> set (splitlines block)" "strip l \<noteq> []" "x = strip l"
    by (auto simp: get_reviewed_commit_ids_def)
  have "\<not> is_linebreak c" if "c \<in> set x" for c
    using that l set_strip [of l] splitlines_acc_no_break [of "[]" l block c]
    by (auto simp: splitlines_def)
  then show ?thesis
    using l hd_strip [of l] last_strip [of l] by (simp add: is_clean_id_def list_all_iff)
qed

lemma ledger_roundtrip:
  assumes "c = [] \<or> is_clean_id c"
  shows "get_reviewed_commit_ids (join [10] (ledger_ids block c)) = ledger_ids block c"
proof -
  have "\<forall>x\<in>set (ledger_ids block c). is_clean_id x"
    using assms reviewed_ids_clean by (auto simp: ledger_ids_eq)
  then show ?thesis by (rule ids_of_clean)
qed

text \<open>
  C4 (as amended). For every ledger block and every commit id: when the id is already in
  the ledger, or is the empty string, \<open>add_reviewed_commit_id\<close> leaves the list of ids as
  it is; otherwise it appends the id at the end. The ids that were there stay, in their
  order, at the front of the list, and the block written is the ids joined with one line
  break between them, between the two tags. When the id is empty or has no white space at
  its ends and no line boundary inside, the lines written read back as the same ids, and
  adding the same id to them once more writes the same block.
\<close>

theorem add_reviewed_commit_id_idempotent:
  "(c \<in> set (get_reviewed_commit_ids block) \<or> c = [] \<longrightarrow>
        ledger_ids block c = get_reviewed_commit_ids block)
   \<and> (c \<notin> set (get_reviewed_commit_ids block) \<and> c \<noteq> [] \<longrightarrow>
        ledger_ids block c = get_reviewed_commit_ids block @ [c])
   \<and> take (length (get_reviewed_commit_ids block)) (ledger_ids block c)
       = get_reviewed_commit_ids block
   \<and> add_reviewed_commit_id block c
       = COMMIT_ID_START_TAG @ [10] @ join [10] (ledger_ids block c) @ [10] @ COMMIT_ID_END_TAG
   \<and> (c = [] \<or> is_clean_id c \<longrightarrow>
        get_reviewed_commit_ids (join [10] (ledger_ids block c)) = ledger_ids block c
        \<and> add_reviewed_commit_id (join [10] (ledger_ids block c)) c
            = add_reviewed_commit_id block c)"
proof -
  have rt: "get_reviewed_commit_ids (join [10] (ledger_ids block c)) = ledger_ids block c"
    if "c = [] \<or> is_clean_id c"
    using that by (rule ledger_roundtrip)
  have "ledger_ids (join [10] (ledger_ids block c)) c = ledger_ids block c"
    if "c = [] \<or> is_clean_id c"
    using rt [OF that] by (subst ledger_ids_eq) (auto simp: ledger_ids_eq)
  then show ?thesis
    using rt by (auto simp: ledger_ids_eq add_reviewed_commit_id_def)
qed

theorem add_reviewed_commit_id_idempotent_witness:
  "str ''c3'' \<in> set (get_reviewed_commit_ids (str ''c1'' @ [10] @ str ''c3''))
   \<and> ledger_ids (str ''c1'' @ [10] @ str ''c3'') (str ''c3'') = [str ''c1'', str ''c3'']
   \<and> str ''c4'' \<notin> set (get_reviewed_commit_ids (str ''c1'' @ [10] @ str ''c3''))
   \<and> ledger_ids (str ''c1'' @ [10] @ str ''c3'') (str ''c4'')
       = [str ''c1'', str ''c3'', str ''c4'']
   \<and> is_clean_id (str ''c4'')
   \<and> add_reviewed_commit_id (join [10] [str ''c1'', str ''c3'', str ''c4'']) (str ''c4'')
       = add_reviewed_commit_id (str ''c1'' @ [10] @ str ''c3'') (str ''c4'')"
proof -
  let ?b = "str ''c1'' @ [10] @ str ''c3''"
  have ids: "get_reviewed_commit_ids ?b = [str ''c1'', str ''c3'']"
    by (simp add: get_reviewed_commit_ids_def splitlines_def str_def is_linebreak_def
        strip_def is_space_def)
  have in3: "str ''c3'' \<in> set (get_reviewed_commit_ids ?b)"
    and out4: "str ''c4'' \<notin> set (get_reviewed_commit_ids ?b)" and ne: "str ''c4'' \<noteq> []"
    unfolding ids by (simp_all add: str_def)
  have cl: "is_clean_id (str ''c4'')"
    by (simp add: is_clean_id_def str_def is_space_def is_linebreak_def)
  have a: "ledger_ids ?b (str ''c3'') = get_reviewed_commit_ids ?b"
    using add_reviewed_commit_id_idempotent [of "str ''c3''" ?b] in3 by blast
  have b: "ledger_ids ?b (str ''c4'') = get_reviewed_commit_ids ?b @ [str ''c4'']"
    using add_reviewed_commit_id_idempotent [of "str ''c4''" ?b] out4 ne by blast
  have "add_reviewed_commit_id (join [10] (ledger_ids ?b (str ''c4''))) (str ''c4'')
          = add_reviewed_commit_id ?b (str ''c4'')"
    using add_reviewed_commit_id_idempotent [of "str ''c4''" ?b] cl by blast
  then have c: "add_reviewed_commit_id (join [10] [str ''c1'', str ''c3'', str ''c4'']) (str ''c4'')
          = add_reviewed_commit_id ?b (str ''c4'')"
    unfolding b ids by simp
  from a b show ?thesis using in3 out4 cl c unfolding ids by simp
qed

text \<open>
  C4 (as stated) fails for the empty commit id, which \<open>post_review\<close> passes when the
  pull request has no head SHA: it is not in the ledger, and it is not appended.
\<close>

theorem empty_commit_id_not_appended:
  "[] \<notin> set (get_reviewed_commit_ids (str ''c1''))
   \<and> ledger_ids (str ''c1'') [] = [str ''c1'']
   \<and> ledger_ids (str ''c1'') [] \<noteq> get_reviewed_commit_ids (str ''c1'') @ [[]]"
  by (simp add: ledger_ids_def get_reviewed_commit_ids_def splitlines_def str_def
      is_linebreak_def strip_def is_space_def)

subsection \<open>The diff annotator\<close>

lemma splitlines_acc_Nil: "splitlines_acc acc s = [] \<longleftrightarrow> acc = [] \<and> s = []"
  by (induction acc s rule: splitlines_acc.induct) auto

lemma splitlines_Nil: "splitlines s = [] \<longleftrightarrow> s = []"
  by (simp add: splitlines_def splitlines_acc_Nil)

lemma length_number_lines: "length (number_lines dv n ls) = length ls"
  by (induction ls arbitrary: n) auto

lemma dropWhile_all: "(\<forall>x\<in>set (dropWhile P s). P x) \<longleftrightarrow> (\<forall>x\<in>set s. P x)"
  by (induction s) auto

lemma strip_Nil: "strip s = [] \<longleftrightarrow> (\<forall>c\<in>set s. is_space c)"
  by (simp add: strip_def dropWhile_eq_Nil_conv dropWhile_all)

lemma nonblank_append: "nonblank (a @ b) \<longleftrightarrow> nonblank a \<or> nonblank b"
  by (auto simp: nonblank_def)

lemma not_space_small: "33 \<le> c \<Longrightarrow> c \<le> 126 \<Longrightarrow> \<not> is_space c"
  by (auto simp: is_space_def)

lemma str_of_nat_nonblank: "nonblank (str_of_nat n)"
proof (induction n rule: str_of_nat.induct)
  case (1 n)
  show ?case
  proof (cases "n < 10")
    case True
    then have "\<not> is_space (48 + n)" by (intro not_space_small) auto
    with True show ?thesis by (subst str_of_nat.simps) (simp add: nonblank_def)
  next
    case False
    have "\<not> is_space (48 + n mod 10)" by (intro not_space_small) auto
    with False show ?thesis by (subst str_of_nat.simps) (simp add: nonblank_def)
  qed
qed

lemma startswith_at_nonblank: "startswith (str ''@@'') l \<Longrightarrow> nonblank l"
  by (cases l) (auto simp: startswith_def str_def nonblank_def is_space_def)

lemma number_lines_nonblank: "x \<in> set (number_lines dv n ls) \<Longrightarrow> nonblank x"
proof (induction ls arbitrary: n)
  case Nil
  then show ?case by simp
next
  case (Cons l ls)
  have m: "nonblank (str ''-: '')"
    by (simp add: nonblank_def str_def is_space_def)
  from Cons show ?case
    by (auto simp: nonblank_append str_of_nat_nonblank startswith_at_nonblank m split: if_splits)
qed

lemma join_nonblank: "xs \<noteq> [] \<Longrightarrow> (\<And>x. x \<in> set xs \<Longrightarrow> nonblank x) \<Longrightarrow> nonblank (join sep xs)"
  by (induction sep xs rule: join.induct) (auto simp: nonblank_append)

lemma extract_nonblank:
  assumes "patch \<noteq> []" shows "nonblank (extract_numbered_hunks dv patch)"
proof -
  have "numbered_lines dv patch \<noteq> []"
    using assms length_number_lines [of dv 0 "splitlines patch"]
    by (auto simp: numbered_lines_def splitlines_Nil simp del: length_number_lines)
  then show ?thesis
    using assms by (simp add: extract_numbered_hunks_def numbered_lines_def join_nonblank number_lines_nonblank)
qed






text \<open>
  C3 fails on the code. In the patch of a file whose old version has no final line break,
  the marker line \<open>\ No newline at end of file\<close> follows the removed line. The loop
  takes it for a context line and counts it, so the added line after it is numbered 2,
  although the hunk starts at line 1 of the new file and no added or context line comes
  before it. In the same way a form feed inside an added line is a line boundary for
  \<open>splitlines\<close>, and the lines after it are numbered one too high.
\<close>

theorem marker_line_shifts_numbers:
  "splitlines marker_patch
     = [str ''@@ -1 +1 @@'', str ''-old'', no_newline_marker, str ''+new'']
   \<and> header_start ascii_digit (str ''@@ -1 +1 @@'') = 1
   \<and> filter (\<lambda>l. startswith (str ''+'') l \<or> startswith (str '' '') l)
        [str ''-old'', no_newline_marker] = []
   \<and> numbered_lines ascii_digit marker_patch
       = [str ''@@ -1 +1 @@'', str ''-: old'', str ''1: '' @ no_newline_marker, str ''2:+new'']
   \<and> numbered_lines ascii_digit form_feed_patch
       = [str ''@@ -0,0 +1,2 @@'', str ''1:+a'', str ''2: b'', str ''3:+c'']"
proof -
  have s: "splitlines marker_patch
     = [str ''@@ -1 +1 @@'', str ''-old'', no_newline_marker, str ''+new'']"
    by (simp add: splitlines_def marker_patch_def no_newline_marker_def str_def is_linebreak_def)
  have h: "header_start ascii_digit (str ''@@ -1 +1 @@'') = 1"
    by (simp add: header_start_def str_def is_digit_def ascii_digit_def int_of_digits_def)
  have f: "filter (\<lambda>l. startswith (str ''+'') l \<or> startswith (str '' '') l)
        [str ''-old'', no_newline_marker] = []"
    by (simp add: startswith_def str_def no_newline_marker_def)
  have n: "str_of_nat (Suc 0) = [49]" "str_of_nat (Suc (Suc 0)) = [50]"
    "str_of_nat (Suc (Suc (Suc 0))) = [51]"
    by (simp_all add: str_of_nat.simps)
  have m: "numbered_lines ascii_digit marker_patch
       = [str ''@@ -1 +1 @@'', str ''-: old'', str ''1: '' @ no_newline_marker, str ''2:+new'']"
    unfolding numbered_lines_def s
    by (simp add: startswith_def str_def no_newline_marker_def n header_start_def is_digit_def
        ascii_digit_def int_of_digits_def)
  have s2: "splitlines form_feed_patch = [str ''@@ -0,0 +1,2 @@'', str ''+a'', str ''b'', str ''+c'']"
    by (simp add: splitlines_def form_feed_patch_def str_def is_linebreak_def)
  have h2: "header_start ascii_digit (str ''@@ -0,0 +1,2 @@'') = 1"
    by (simp add: header_start_def str_def is_digit_def ascii_digit_def int_of_digits_def)
  have m2: "numbered_lines ascii_digit form_feed_patch
       = [str ''@@ -0,0 +1,2 @@'', str ''1:+a'', str ''2: b'', str ''3:+c'']"
    unfolding numbered_lines_def s2
    by (simp add: startswith_def str_def n header_start_def is_digit_def
        ascii_digit_def int_of_digits_def)
  from s h f m m2 show ?thesis by (intro conjI)
qed

subsection \<open>The reply chain\<close>

lemma by_id_ran: "by_id cs k = Some c \<Longrightarrow> c \<in> set cs"
  by (auto simp: by_id_def dest!: map_of_SomeD)

lemma chain_walk_from_listed:
  assumes H: "\<forall>c\<in>set cs. \<forall>p c'. rc_in_reply_to c = Some p \<and> p \<noteq> 0 \<and> by_id cs (Some p) = Some c'
                \<longrightarrow> r c' < (r c :: nat)"
  shows "cur \<in> set cs \<Longrightarrow>
         \<exists>path top'. chain_walk (by_id cs) trg acc cur = Some (acc @ path, top')
            \<and> path \<noteq> [] \<and> hd path = cur \<and> linked (by_id cs) path
            \<and> walk_end (by_id cs) trg (last path) top'"
proof (induction "r cur" arbitrary: cur acc rule: less_induct)
  case less
  show ?case
  proof (cases "rc_in_reply_to cur")
    case None
    then show ?thesis
      by (subst chain_walk.simps) (auto simp: walk_end_def intro!: exI [of _ "[cur]"])
  next
    case (Some p)
    show ?thesis
    proof (cases "p = 0")
      case True
      with Some show ?thesis
        by (subst chain_walk.simps) (auto simp: walk_end_def intro!: exI [of _ "[cur]"])
    next
      case False
      show ?thesis
      proof (cases "by_id cs (Some p)")
        case None
        with Some False show ?thesis
          by (subst chain_walk.simps) (auto simp: walk_end_def intro!: exI [of _ "[cur]"])
      next
        case (Some parent)
        note par = Some
        have lt: "r parent < r cur" using H less.prems \<open>rc_in_reply_to cur = Some p\<close> False par by blast
        have pin: "parent \<in> set cs" using par by (rule by_id_ran)
        from less.hyps [OF lt pin, of "acc @ [cur]"] obtain path top' where
          p: "chain_walk (by_id cs) trg (acc @ [cur]) parent = Some ((acc @ [cur]) @ path, top')"
             "path \<noteq> []" "hd path = parent" "linked (by_id cs) path"
             "walk_end (by_id cs) trg (last path) top'"
          by blast
        have "chain_walk (by_id cs) trg acc cur = Some (acc @ (cur # path), top')"
          using p(1) \<open>rc_in_reply_to cur = Some p\<close> False par
          by (subst chain_walk.simps) simp
        moreover have "linked (by_id cs) (cur # path)"
          using p(2,3,4) \<open>rc_in_reply_to cur = Some p\<close> False par by (cases path) auto
        ultimately show ?thesis using p(2,5) by (intro exI [of _ "cur # path"] exI [of _ top']) simp
      qed
    qed
  qed
qed


lemma chain_lines_eq:
  "chain_lines cs =
     (if list_ex (\<lambda>c. rc_user c = Null) cs then Inl AttributeError else Inr (map line_text cs))"
  by (induction cs) (auto simp: chain_line_def split: field.splits)

text \<open>
  C9 (as amended). Let \<open>r\<close> rank the comments so that every listed comment whose parent
  id is found in \<open>by_id\<close> ranks above that parent (the ids themselves are such a ranking
  when each reply has a larger id than its parent: the links have no cycle). Then the
  walk ends, for every triggering comment. The comments visited begin with the triggering
  comment, each is followed by its parent, and the last one has no parent id (it is then
  the top-level comment returned) or a parent id that is not listed (the triggering
  comment is then returned as top-level). When no visited comment has a null user,
  \<open>get_comment_chain\<close> returns the lines of the visited comments in reverse order, the
  triggering comment last, joined by line breaks; with a null user among them it raises
  \<open>AttributeError\<close>.
\<close>

theorem comment_chain_terminates:
  assumes "\<forall>c\<in>set comments. \<forall>p c'.
             rc_in_reply_to c = Some p \<and> p \<noteq> 0 \<and> by_id comments (Some p) = Some c'
             \<longrightarrow> r c' < (r c :: nat)"
  shows "\<exists>chain top_level.
           chain_walk (by_id comments) comment [] comment = Some (chain, top_level)
         \<and> get_comment_chain comments comment
             = Some (if list_ex (\<lambda>c. rc_user c = Null) chain then Inl AttributeError
                     else Inr (join [10] (map line_text (rev chain)), top_level))
         \<and> chain \<noteq> [] \<and> hd chain = comment \<and> linked (by_id comments) chain
         \<and> walk_end (by_id comments) comment (last chain) top_level"
proof -
  let ?ids = "by_id comments"
  have "\<exists>chain top_level. chain_walk ?ids comment [] comment = Some (chain, top_level)
         \<and> chain \<noteq> [] \<and> hd chain = comment \<and> linked ?ids chain
         \<and> walk_end ?ids comment (last chain) top_level"
  proof (cases "rc_in_reply_to comment")
    case None
    then show ?thesis
      by (subst chain_walk.simps) (auto simp: walk_end_def intro!: exI [of _ "[comment]"])
  next
    case (Some p)
    show ?thesis
    proof (cases "p = 0 \<or> ?ids (Some p) = None")
      case True
      with Some show ?thesis
        by (subst chain_walk.simps) (auto simp: walk_end_def intro!: exI [of _ "[comment]"])
    next
      case False
      then obtain parent where par: "?ids (Some p) = Some parent" and p0: "p \<noteq> 0" by auto
      have pin: "parent \<in> set comments" using par by (rule by_id_ran)
      from chain_walk_from_listed [OF assms pin, of comment "[comment]"] obtain path top' where
        p: "chain_walk ?ids comment [comment] parent = Some ([comment] @ path, top')"
           "path \<noteq> []" "hd path = parent" "linked ?ids path"
           "walk_end ?ids comment (last path) top'"
        by blast
      have "chain_walk ?ids comment [] comment = Some (comment # path, top')"
        using p(1) Some p0 par by (subst chain_walk.simps) simp
      moreover have "linked ?ids (comment # path)"
        using p(2,3,4) Some p0 par by (cases path) auto
      ultimately show ?thesis
        using p(2,5) by (intro exI [of _ "comment # path"] exI [of _ top']) simp
    qed
  qed
  then obtain chain top_level where w:
    "chain_walk ?ids comment [] comment = Some (chain, top_level)"
    "chain \<noteq> []" "hd chain = comment" "linked ?ids chain"
    "walk_end ?ids comment (last chain) top_level"
    by blast
  have "get_comment_chain comments comment
          = Some (if list_ex (\<lambda>c. rc_user c = Null) chain then Inl AttributeError
                  else Inr (join [10] (map line_text (rev chain)), top_level))"
    by (simp add: get_comment_chain_def w(1) chain_lines_eq list_ex_iff rev_map)
  with w show ?thesis by blast
qed

theorem comment_chain_terminates_witness:
  "(\<exists>chain top_level.
      chain_walk (by_id [thread_top, thread_mid]) thread_new [] thread_new
        = Some (chain, top_level)
      \<and> get_comment_chain [thread_top, thread_mid] thread_new
          = Some (if list_ex (\<lambda>c. rc_user c = Null) chain then Inl AttributeError
                  else Inr (join [10] (map line_text (rev chain)), top_level))
      \<and> chain \<noteq> [] \<and> hd chain = thread_new
      \<and> linked (by_id [thread_top, thread_mid]) chain
      \<and> walk_end (by_id [thread_top, thread_mid]) thread_new (last chain) top_level)
   \<and> get_comment_chain [thread_top, thread_mid] thread_new
       = Some (Inr (str ''ann: one'' @ [10] @ str ''bob: two'' @ [10] @ str ''user: three'',
                    thread_top))"
proof -
  have ids: "by_id [thread_top, thread_mid] (Some 7) = Some thread_top"
    "by_id [thread_top, thread_mid] (Some 8) = Some thread_mid"
    by (simp_all add: by_id_def thread_top_def thread_mid_def)
  have h: "\<forall>c\<in>set [thread_top, thread_mid]. \<forall>p c'.
             rc_in_reply_to c = Some p \<and> p \<noteq> 0
             \<and> by_id [thread_top, thread_mid] (Some p) = Some c'
             \<longrightarrow> the (rc_id c') < the (rc_id c)"
    by (auto simp: by_id_def thread_top_def thread_mid_def)
  have par: "rc_in_reply_to thread_top = None" "rc_in_reply_to thread_mid = Some 7"
    "rc_in_reply_to thread_new = Some 8"
    by (simp_all add: thread_top_def thread_mid_def thread_new_def)
  let ?ids = "by_id [thread_top, thread_mid]"
  have w1: "chain_walk ?ids t acc thread_top = Some (acc @ [thread_top], thread_top)" for t acc
    by (subst chain_walk.simps) (simp add: par)
  have w2: "chain_walk ?ids t acc thread_mid = Some (acc @ [thread_mid, thread_top], thread_top)"
    for t acc
    by (subst chain_walk.simps) (simp add: par ids w1)
  have w3: "chain_walk ?ids t acc thread_new
              = Some (acc @ [thread_new, thread_mid, thread_top], thread_top)" for t acc
    by (subst chain_walk.simps) (simp add: par ids w2)
  have lines: "chain_line thread_top = Inr (str ''ann: one'')"
    "chain_line thread_mid = Inr (str ''bob: two'')"
    "chain_line thread_new = Inr (str ''user: three'')"
    by (simp_all add: chain_line_def line_text_def user_login_def body_text_def
        thread_top_def thread_mid_def thread_new_def str_def)
  have v: "get_comment_chain [thread_top, thread_mid] thread_new
       = Some (Inr (str ''ann: one'' @ [10] @ str ''bob: two'' @ [10] @ str ''user: three'',
                    thread_top))"
    by (simp add: get_comment_chain_def w3 lines)
  show ?thesis
    using comment_chain_terminates [OF h, of thread_new] v by blast
qed

lemma cyc_by_id: "by_id [cyc_a, cyc_b] (Some 5) = Some cyc_a" "by_id [cyc_a, cyc_b] (Some 6) = Some cyc_b"
  by (simp_all add: by_id_def cyc_a_def cyc_b_def)

lemma cyc_parent: "rc_in_reply_to cyc_a = Some 6" "rc_in_reply_to cyc_b = Some 5"
  by (simp_all add: cyc_a_def cyc_b_def)

lemma chain_walk_cycle:
  assumes "chain_walk ids0 trg0 acc0 cur0 = Some y0"
  shows "\<not> (ids0 = by_id [cyc_a, cyc_b] \<and> (cur0 = cyc_a \<or> cur0 = cyc_b))"
proof (rule chain_walk.raw_induct
    [where P = "\<lambda>ids trg acc cur y. \<not> (ids = by_id [cyc_a, cyc_b] \<and> (cur = cyc_a \<or> cur = cyc_b))",
     OF _ assms], goal_cases)
  case (1 f ids trg acc cur y)
  note ih = 1(1) and step = 1(2)
  show ?case
  proof
    assume a: "ids = by_id [cyc_a, cyc_b] \<and> (cur = cyc_a \<or> cur = cyc_b)"
    then consider "cur = cyc_a" | "cur = cyc_b" by blast
    then have "f ids trg (acc @ [cur]) cyc_a = Some y \<or> f ids trg (acc @ [cur]) cyc_b = Some y"
    proof cases
      case 1
      then show ?thesis using step a by (simp add: cyc_parent cyc_by_id)
    next
      case 2
      then show ?thesis using step a by (simp add: cyc_parent cyc_by_id)
    qed
    then show False using ih a by blast
  qed
qed

text \<open>
  C9 (as stated) fails: two comments that reply to each other are a finite list on which
  the walk from one of them never ends. And for a triggering comment whose user is null
  the walk ends, but no chain text is returned: the formatting of its line raises.
\<close>

theorem comment_chain_cycle:
  "get_comment_chain [cyc_a, cyc_b] cyc_a = None
   \<and> get_comment_chain [] ghost_comment = Some (Inl AttributeError)"
proof -
  have "get_comment_chain [cyc_a, cyc_b] cyc_a = None"
    using chain_walk_cycle [of "by_id [cyc_a, cyc_b]" cyc_a "[]" cyc_a]
    by (cases "chain_walk (by_id [cyc_a, cyc_b]) cyc_a [] cyc_a") (auto simp: get_comment_chain_def)
  moreover have "chain_walk (by_id []) ghost_comment [] ghost_comment
                   = Some ([ghost_comment], ghost_comment)"
    by (subst chain_walk.simps) (simp add: ghost_comment_def)
  then have "get_comment_chain [] ghost_comment = Some (Inl AttributeError)"
    by (simp add: get_comment_chain_def chain_line_def) (simp add: ghost_comment_def)
  ultimately show ?thesis by (intro conjI)
qed

subsection \<open>The upsert by tag\<close>












subsection \<open>The review cycle\<close>

lemma review_loop_simple:
  "\<not> review_simple_changes cfg \<Longrightarrow> simple_reason \<noteq> [] \<Longrightarrow>
   review_loop rt cfg m summaries simple_reason short files = ([], [])"
  by (induction files) auto

lemma simple_reason_text_nonempty: "simple_reason_text cfg \<noteq> []"
  by (simp add: simple_reason_text_def str_def)

lemma simple_reason_text_not_doc: "simple_reason_text cfg \<noteq> str ''documentation-only changes''"
  by (simp add: simple_reason_text_def str_def)

lemma is_file_review_simps:
  "\<not> is_file_review (LLMFileSummary p)" "\<not> is_file_review (LLMSummary r)"
  "is_file_review (LLMFileReview p)"
  by (simp_all add: is_file_review_def)

lemma summarize_loop_events:
  "summarize_loop rt cfg m pr acc files = (sums, ev) \<Longrightarrow> filter is_file_review ev = []"
proof (induction files arbitrary: acc sums ev)
  case Nil
  then show ?case by simp
next
  case (Cons fl files)
  show ?case
  proof (cases "summarize_loop rt cfg m pr acc (fl # files) = summarize_loop rt cfg m pr acc files")
    case True
    then have "summarize_loop rt cfg m pr acc files = (sums, ev)"
      using Cons.prems by (simp only:)
    then show ?thesis by (rule Cons.IH)
  next
    case False
    obtain summary triage where ft: "file_summary m pr (path_of fl) (patch_of fl) = (summary, triage)"
      by (cases "file_summary m pr (path_of fl) (patch_of fl)")
    let ?acc = "acc @ [(path_of fl, summary, triage)]"
    obtain s2 e2 where r: "summarize_loop rt cfg m pr ?acc files = (s2, e2)"
      by (cases "summarize_loop rt cfg m pr ?acc files")
    have "filter is_file_review e2 = []" using Cons.IH [OF r] .
    moreover have "ev = [LLMFileSummary (path_of fl)] \<or> ev = LLMFileSummary (path_of fl) # e2"
      using False Cons.prems ft r by (auto simp: Let_def split: if_splits)
    ultimately show ?thesis by (auto simp: is_file_review_simps)
  qed
qed

text \<open>
  C6 (as amended). \<open>_should_skip_review\<close> classifies a change as simple exactly when
  \<open>review_simple_changes\<close> is false and the additions plus the deletions of all files
  are at most the threshold (the threshold itself included). For such a change the review
  of the files returns no inline comment and calls the review prompt for no file, while
  the result is not a skip and the summary pipeline has run on the raw summary.
\<close>

theorem simple_change_classification:
  "(should_skip_review rt cfg files = (True, simple_reason_text cfg)
      \<longleftrightarrow> \<not> review_simple_changes cfg \<and> total_changes files \<le> simple_change_threshold cfg)
   \<and> (\<not> review_simple_changes cfg \<and> total_changes files \<le> simple_change_threshold cfg \<longrightarrow>
        rr_review_comments (fst (review_files rt cfg m pr files)) = []
        \<and> \<not> rr_skipped (fst (review_files rt cfg m pr files))
        \<and> filter is_file_review (snd (review_files rt cfg m pr files)) = []
        \<and> LLMSummary (rr_raw_summary (fst (review_files rt cfg m pr files)))
            \<in> set (snd (review_files rt cfg m pr files)))"
proof -
  have a: "should_skip_review rt cfg files = (True, simple_reason_text cfg)
      \<longleftrightarrow> \<not> review_simple_changes cfg \<and> total_changes files \<le> simple_change_threshold cfg"
    using simple_reason_text_not_doc [of cfg]
    by (auto simp: should_skip_review_def)
  have b: "rr_review_comments (fst (review_files rt cfg m pr files)) = []
        \<and> \<not> rr_skipped (fst (review_files rt cfg m pr files))
        \<and> filter is_file_review (snd (review_files rt cfg m pr files)) = []
        \<and> LLMSummary (rr_raw_summary (fst (review_files rt cfg m pr files)))
            \<in> set (snd (review_files rt cfg m pr files))"
    if s: "\<not> review_simple_changes cfg" "total_changes files \<le> simple_change_threshold cfg"
  proof -
    have sk: "should_skip_review rt cfg files = (True, simple_reason_text cfg)"
      using s by (simp add: should_skip_review_def)
    obtain sums ev1 where sl: "summarize_loop rt cfg m pr [] files = (sums, ev1)"
      by (cases "summarize_loop rt cfg m pr [] files")
    have nf: "filter is_file_review ev1 = []"
      using sl by (rule summarize_loop_events)
    obtain su rn sh where rs:
      "run_summary m (join [10] (map (\<lambda>(path, summary, _). path @ str '': '' @ summary) sums))
         = (su, rn, sh)"
      by (cases "run_summary m (join [10] (map (\<lambda>(path, summary, _). path @ str '': '' @ summary) sums))")
    show ?thesis
      using s(1) nf
      by (simp add: review_files_def sk sl rs simple_reason_text_not_doc Let_def
          review_loop_simple [OF s(1) simple_reason_text_nonempty] is_file_review_simps)
  qed
  show ?thesis using a b by blast
qed


lemma default_config_simps:
  "github_token default_config" "\<not> review_simple_changes default_config"
  "simple_change_threshold default_config = 20" "\<not> review_comment_lgtm default_config"
  "max_files default_config = 0" "ignore_keyword default_config = str ''@coderabbitai: ignore''"
  "update_description default_config" "max_comments default_config = 20"
  "comment_greeting default_config = str ''CodeRabbit''"
  by (simp_all add: default_config_def)

lemma str_of_nat_20: "str_of_nat 20 = str ''20''"
  by (simp add: str_of_nat.simps str_def)

lemma simple_reason_text_default:
  "simple_reason_text default_config = str ''simple changes (<= 20 lines)''"
  by (simp add: simple_reason_text_def default_config_simps str_of_int_def str_of_nat_20) (simp add: str_def)

theorem simple_change_classification_witness:
  "\<not> review_simple_changes default_config
   \<and> total_changes [example_file 10 5] = 15
   \<and> simple_change_threshold default_config = 20
   \<and> should_skip_review ascii_runtime default_config [example_file 10 5]
       = (True, str ''simple changes (<= 20 lines)'')
   \<and> rr_review_comments
        (fst (review_files ascii_runtime default_config (fixed_llm [bad_line_item]) example_pr
                [example_file 10 5])) = []
   \<and> \<not> rr_skipped
        (fst (review_files ascii_runtime default_config (fixed_llm [bad_line_item]) example_pr
                [example_file 10 5]))
   \<and> filter is_file_review
        (snd (review_files ascii_runtime default_config (fixed_llm [bad_line_item]) example_pr
                [example_file 10 5])) = []
   \<and> LLMSummary
        (rr_raw_summary
           (fst (review_files ascii_runtime default_config (fixed_llm [bad_line_item]) example_pr
                   [example_file 10 5])))
       \<in> set (snd (review_files ascii_runtime default_config (fixed_llm [bad_line_item])
                      example_pr [example_file 10 5]))"
proof -
  have t: "total_changes [example_file 10 5] = 15"
    by (simp add: total_changes_def example_file_def)
  have h: "\<not> review_simple_changes default_config
           \<and> total_changes [example_file 10 5] \<le> simple_change_threshold default_config"
    by (simp add: t default_config_simps)
  note T = simple_change_classification
    [of ascii_runtime default_config "[example_file 10 5]" "fixed_llm [bad_line_item]" example_pr]
  have "should_skip_review ascii_runtime default_config [example_file 10 5]
          = (True, simple_reason_text default_config)"
    using T h by blast
  then show ?thesis
    using T h t by (simp add: simple_reason_text_default default_config_simps)
qed

text \<open>
  C6 (as stated) fails at the threshold: 20 changed lines are not below the threshold 20,
  and the change is classified as simple.
\<close>

theorem simple_at_threshold:
  "total_changes [example_file 15 5] = 20
   \<and> simple_change_threshold default_config = 20
   \<and> \<not> total_changes [example_file 15 5] < simple_change_threshold default_config
   \<and> \<not> review_simple_changes default_config
   \<and> should_skip_review ascii_runtime default_config [example_file 15 5]
       = (True, str ''simple changes (<= 20 lines)'')"
  by (simp add: should_skip_review_def total_changes_def example_file_def default_config_simps
      simple_reason_text_default)

text \<open>
  C7. When the details of the pull request are fetched, the ignore keyword is not in the
  description, the listings succeed and the comparison of \<open>compare_base\<close> with the head
  commit returns no file, \<open>review_pr\<close> returns the skip result with the reason
  \<open>no files to review\<close> and the head commit id, \<open>post_review\<close> returns it as it is,
  and the cycle has called no language model and sent no publishing request.
\<close>

theorem no_files_skips_without_calls:
  assumes "gh_pr_details gh 0 = Some pr"
    and "\<not> (ignore_keyword cfg \<noteq> [] \<and> contains (ignore_keyword cfg) (opt_str (pr_body pr)))"
    and "gh_issue_comments gh 0 = Inr comments"
    and "(if github_token cfg then get_all_commit_ids (gh_commit_pages gh) else Inr [])
           = Inr all_commits"
    and "gh_compare gh (compare_base pr comments all_commits) (pr_head_sha pr) = Some []"
  shows "review_pr rt cfg m gh
           = (Inr (skipped_result (opt_str (pr_head_sha pr)) (str ''no files to review'')), [])
       \<and> post_review rt cfg m gh
           = (Inr (skipped_result (opt_str (pr_head_sha pr)) (str ''no files to review'')), [])
       \<and> rr_skipped (skipped_result (opt_str (pr_head_sha pr)) (str ''no files to review''))
       \<and> rr_skip_reason (skipped_result (opt_str (pr_head_sha pr)) (str ''no files to review''))
           = str ''no files to review''
       \<and> rr_reviewed_sha (skipped_result (opt_str (pr_head_sha pr)) (str ''no files to review''))
           = opt_str (pr_head_sha pr)
       \<and> filter is_llm (snd (post_review rt cfg m gh)) = []
       \<and> filter is_publish (snd (post_review rt cfg m gh)) = []"
proof -
  have r: "review_pr rt cfg m gh
           = (Inr (skipped_result (opt_str (pr_head_sha pr)) (str ''no files to review'')), [])"
    using assms by (auto simp: review_pr_def)
  then have p: "post_review rt cfg m gh
           = (Inr (skipped_result (opt_str (pr_head_sha pr)) (str ''no files to review'')), [])"
    by (simp add: post_review_def skipped_result_def)
  show ?thesis using r p by (simp add: skipped_result_def)
qed

theorem no_files_skips_without_calls_witness:
  "gh_pr_details (example_github []) 0 = Some example_pr
   \<and> gh_compare (example_github []) (compare_base example_pr [] []) (pr_head_sha example_pr)
       = Some []
   \<and> post_review ascii_runtime default_config (fixed_llm [bad_line_item]) (example_github [])
       = (Inr (skipped_result (str ''h1'') (str ''no files to review'')), [])"
proof -
  have a: "gh_pr_details (example_github []) 0 = Some example_pr"
    and c: "gh_issue_comments (example_github []) 0 = Inr []"
    and e: "gh_compare (example_github []) (compare_base example_pr [] []) (pr_head_sha example_pr)
              = Some []"
    by (simp_all add: example_github_def)
  have b: "\<not> (ignore_keyword default_config \<noteq> []
              \<and> contains (ignore_keyword default_config) (opt_str (pr_body example_pr)))"
    by (simp add: default_config_simps example_pr_def opt_str_def str_def startswith_def)
  have d: "(if github_token default_config
            then get_all_commit_ids (gh_commit_pages (example_github [])) else Inr []) = Inr []"
    by (simp add: example_github_def)
  have h: "opt_str (pr_head_sha example_pr) = str ''h1''"
    by (simp add: example_pr_def opt_str_def)
  show ?thesis
    using no_files_skips_without_calls [OF a b c d e, of ascii_runtime "fixed_llm [bad_line_item]"] a e
    by (simp add: h)
qed

text \<open>
  C8 fails on the code: when the listing of the issue comments fails, \<open>review_pr\<close>
  raises the exception of the request instead of returning a skipped result, and so does
  \<open>post_review\<close>.
\<close>

theorem failed_comment_listing_raises:
  "gh_pr_details failing_github 0 = Some example_pr
   \<and> gh_issue_comments failing_github 0 = Inl RequestError
   \<and> review_pr ascii_runtime default_config (fixed_llm []) failing_github = (Inl RequestError, [])
   \<and> post_review ascii_runtime default_config (fixed_llm []) failing_github
       = (Inl RequestError, [])"
proof -
  have b: "\<not> contains (str ''@coderabbitai: ignore'') (str ''d'')"
    by (simp add: str_def startswith_def)
  have r: "review_pr ascii_runtime default_config (fixed_llm []) failing_github
             = (Inl RequestError, [])"
    using b by (simp add: review_pr_def failing_github_def example_github_def default_config_simps
        example_pr_def opt_str_def)
  show ?thesis
    using r by (simp add: post_review_def) (simp add: failing_github_def example_github_def)
qed

subsection \<open>The inline comments of the review\<close>

lemma example_path_simps:
  "example_path \<noteq> []" "46 \<in> set example_path"
  "rt_lower ascii_runtime (after_last_dot example_path) = str ''py''"
  by (simp_all add: example_path_def ascii_runtime_def after_last_dot_def str_def)

lemma example_patch_nonempty: "example_patch \<noteq> []"
  by (simp add: example_patch_def str_def)

lemma bad_line_raises: "buffer_loop ascii_runtime default_config [bad_line_item] = Inl ValueError"
proof -
  have "ascii_int (str ''abc'') = None"
    by (simp add: ascii_int_def strip_def is_space_def str_def is_digit_def ascii_digit_def)
  moreover have "str ''abc'' \<noteq> []" by (simp add: str_def)
  ultimately show ?thesis
    using example_path_simps(1)
    by (simp add: bad_line_item_def or_default_def ascii_runtime_def)
qed

lemma example_file_fields:
  "path_of (example_file a d) = example_path"
  "patch_of (example_file a d) = example_patch"
  "fc_additions (example_file a d) = a" "fc_deletions (example_file a d) = d"
  "fc_filename (example_file a d) = Some example_path"
  by (simp_all add: example_file_def path_of_def patch_of_def opt_str_def)

lemma example_ext_kept: "str ''py'' \<notin> set (skip_extensions default_config)"
  by (simp add: default_config_def str_def)

lemma example_skip:
  "should_skip_review ascii_runtime default_config [example_file 30 10] = (False, [])"
proof -
  have "extensions ascii_runtime [example_file 30 10] = [str ''py'']"
    by (simp add: extensions_def example_file_fields opt_str_def example_path_simps)
  then show ?thesis
    using example_ext_kept
    by (simp add: should_skip_review_def total_changes_def example_file_fields default_config_simps)
qed

lemma example_summaries:
  "summarize_loop ascii_runtime default_config (fixed_llm items) example_pr [] [example_file 30 10]
     = ([(example_path, str ''changed'', str ''NEEDS_REVIEW'')], [LLMFileSummary example_path])"
  using example_ext_kept
  by (simp add: example_file_fields example_path_simps example_patch_nonempty
      default_config_simps fixed_llm_def)

lemma normalize_bad: "normalize_item example_path bad_line_item = bad_line_item"
  using example_path_simps(1) by (simp add: normalize_item_def bad_line_item_def)

lemma example_file_review:
  "run_file_review ascii_runtime (fixed_llm [bad_line_item]) example_path example_patch short
   = ([bad_line_item], [LLMFileReview example_path])"
proof -
  have "strip (extract_numbered_hunks d example_patch) \<noteq> []" for d
    using extract_nonblank [OF example_patch_nonempty, of d] by (auto simp: strip_Nil nonblank_def)
  then show ?thesis
    by (simp add: run_file_review_def fixed_llm_def normalize_bad)
qed

lemma example_review_loop:
  "review_loop ascii_runtime default_config (fixed_llm [bad_line_item])
     [(example_path, str ''changed'', str ''NEEDS_REVIEW'')] [] short [example_file 30 10]
   = ([bad_line_item], [LLMFileReview example_path])"
proof -
  have tr: "str ''NEEDS_REVIEW'' \<noteq> str ''APPROVED''"
    by (simp add: str_def)
  show ?thesis
    using tr by (simp add: example_file_fields example_file_review default_config_simps
        example_path_simps example_patch_nonempty)
qed

lemma example_review_files:
  "review_files ascii_runtime default_config (fixed_llm [bad_line_item]) example_pr
     [example_file 30 10]
   = (\<lparr>rr_summary = str ''summary'', rr_release_notes = [str ''note''],
       rr_raw_summary = example_path @ str '': '' @ str ''changed'',
       rr_short_summary = str ''short'', rr_review_comments = [bad_line_item],
       rr_reviewed_sha = str ''h1'', rr_skipped = False, rr_skip_reason = []\<rparr>,
      [LLMFileSummary example_path, LLMSummary (example_path @ str '': '' @ str ''changed''),
       LLMFileReview example_path])"
proof -
  have rs: "run_summary (fixed_llm [bad_line_item]) r = (str ''summary'', [str ''note''], str ''short'')"
    for r by (simp add: fixed_llm_def)
  have h: "opt_str (pr_head_sha example_pr) = str ''h1''"
    by (simp add: example_pr_def opt_str_def)
  show ?thesis
    by (simp add: review_files_def example_skip example_summaries rs example_review_loop h Let_def
        del: summarize_loop.simps review_loop.simps)
qed


lemma example_review_pr:
  "review_pr ascii_runtime default_config (fixed_llm [bad_line_item])
     (example_github [example_file 30 10])
   = (Inr \<lparr>rr_summary = str ''summary'', rr_release_notes = [str ''note''],
       rr_raw_summary = example_path @ str '': '' @ str ''changed'',
       rr_short_summary = str ''short'', rr_review_comments = [bad_line_item],
       rr_reviewed_sha = str ''h1'', rr_skipped = False, rr_skip_reason = []\<rparr>,
      [LLMFileSummary example_path, LLMSummary (example_path @ str '': '' @ str ''changed''),
       LLMFileReview example_path])"
proof -
  have b: "\<not> contains (str ''@coderabbitai: ignore'') (str ''d'')"
    by (simp add: str_def startswith_def)
  show ?thesis
    using b
    by (simp add: review_pr_def example_github_def default_config_simps example_pr_def opt_str_def
        example_review_files [unfolded example_pr_def])
qed

text \<open>
  C10 fails on the code: a collected comment whose \<open>end_line\<close> is a string that \<open>int\<close>
  cannot read is not dropped. The conversion raises \<open>ValueError\<close> in the loop of
  \<open>post_review\<close>, after the summary comment and the description have been published,
  and no review is submitted.
\<close>

theorem unparsable_end_line_raises:
  "buffer_loop ascii_runtime default_config
     (py_take (max_comments default_config) [bad_line_item]) = Inl ValueError
   \<and> fst (post_review ascii_runtime default_config (fixed_llm [bad_line_item])
            (example_github [example_file 30 10])) = Inl ValueError
   \<and> filter is_pub_review
        (snd (post_review ascii_runtime default_config (fixed_llm [bad_line_item])
                (example_github [example_file 30 10]))) = []
   \<and> filter is_publish
        (snd (post_review ascii_runtime default_config (fixed_llm [bad_line_item])
                (example_github [example_file 30 10]))) \<noteq> []"
proof -
  have t: "py_take (max_comments default_config) [bad_line_item] = [bad_line_item]"
    by (simp add: py_take_def default_config_simps)
  have t2: "py_take 20 [bad_line_item] = [bad_line_item]"
    by (simp add: py_take_def)
  have h: "str ''h1'' \<noteq> []" by (simp add: str_def)
  have p: "publish ascii_runtime default_config (example_github [example_file 30 10])
             \<lparr>rr_summary = str ''summary'', rr_release_notes = [str ''note''],
              rr_raw_summary = example_path @ str '': '' @ str ''changed'',
              rr_short_summary = str ''short'', rr_review_comments = [bad_line_item],
              rr_reviewed_sha = str ''h1'', rr_skipped = False, rr_skip_reason = []\<rparr>
           = (Some ValueError,
              [PubIssueComment (CreateIssueComment
                 (build_summary_comment (str ''summary'') [str ''note'']
                    (example_path @ str '': '' @ str ''changed'') (str ''short'')
                    (add_reviewed_commit_id
                       (get_reviewed_commit_ids_block []) (str ''h1'')))),
               PubDescription (release_lines [str ''note''])])"
    using h
    by (simp add: publish_def example_github_def example_pr_def opt_str_def Let_def
        default_config_simps t2 bad_line_raises del: buffer_loop.simps)
  show ?thesis
    by (simp add: t2 bad_line_raises post_review_def example_review_pr p default_config_simps
        is_pub_review_def is_publish_def del: buffer_loop.simps)
qed

end
